theory Spec2Isabelle
  imports Main
begin

section \<open>Python values, JSON documents and the library the codec calls\<close>

text \<open>
  The built-in exceptions the code lets through as they are, and the exceptions of
  \<^verbatim>\<open>wallpaperdatabase.py\<close> (the \<^verbatim>\<open>DatabaseError\<close> family). \<open>Unmodelled\<close> marks the
  few inputs on which this development does not follow Python (each is named where it
  occurs); no document that the program writes reaches them.
\<close>

datatype builtin =
    TypeError
  | KeyError
  | ValueError
  | AttributeError
  | IndexError
  | UnsupportedOperation
  | UnicodeDecodeError
  | OSError
  | Unmodelled

datatype error =
    Builtin builtin
  | DatabaseDirectoryNotFoundError
  | DatabaseModeError
  | DatabaseLockError
  | DatabaseReadError
  | DatabaseExistsError
  | DatabaseDecodeError
  | DatabaseWriteError
  | StartpageSetError

text \<open>
  A \<^verbatim>\<open>datetime\<close>: the wall-clock reading in microseconds and the UTC offset in
  microseconds; a naive datetime has no offset.
\<close>

record datetime =
  wall :: int
  utcoffset :: "int option"

text \<open>
  A \<^verbatim>\<open>pathlib.Path\<close> is its tuple of parts (\<^verbatim>\<open>Path.parts\<close>): for an absolute path the
  first part is the root \<^verbatim>\<open>/\<close>.
\<close>

type_synonym path = "string list"

text \<open>
  The values the record graph holds at run time. \<^verbatim>\<open>Target\<close> and \<^verbatim>\<open>Wallpaper\<close> are the
  nested dataclasses; a dataclass does not check the types of its fields, so they are
  values again. \<^verbatim>\<open>PBytes\<close> stands for the objects the encoder has no rule for (no
  \<^verbatim>\<open>__dict__\<close>, neither datetime nor Path). A dict is its items in insertion order.
\<close>

datatype pyval =
    PNone
  | PBool bool
  | PInt int
  | PStr string
  | PList "pyval list"
  | PDict "(string \<times> pyval) list"
  | PDatetime datetime
  | PPath path
  | PTarget pyval pyval
  | PWallpaper pyval pyval pyval
  | PBytes string

text \<open>A parsed JSON document (numbers are integers here; the program writes no floats).\<close>

datatype json =
    JNull
  | JBool bool
  | JInt int
  | JStr string
  | JArr "json list"
  | JObj "(string \<times> json) list"

text \<open>
  What the codec calls and the repository does not define: \<^verbatim>\<open>datetime.isoformat\<close>,
  \<^verbatim>\<open>datetime.fromisoformat\<close> (\<^verbatim>\<open>ValueError\<close> on a string that is no ISO date), the local
  zone's UTC offset that \<^verbatim>\<open>astimezone()\<close> uses (for a UTC instant, and for a naive
  wall-clock reading), and what calling an attribute of the class
  \<^verbatim>\<open>WallpaperDatabase\<close> other than its two nested dataclasses gives (\<open>None\<close>: the class
  has no attribute of that name). The last field is the buffer of the file object that
  \<^verbatim>\<open>json.dump\<close> writes to: \<open>None\<close> when the text of the document stays in the buffer until
  the file is closed; when the text overflows the buffer, a part of it is written to
  the file during the dump, and the field gives the JSON values which that part
  completes (see the file contents below).
\<close>

record pylib =
  isoformat :: "datetime \<Rightarrow> string"
  fromisoformat :: "string \<Rightarrow> builtin + datetime"
  local_offset_utc :: "int \<Rightarrow> int"
  local_offset_wall :: "int \<Rightarrow> int"
  class_attr_call :: "string \<Rightarrow> ((string \<times> pyval) list \<Rightarrow> builtin + pyval) option"
  dump_flushed :: "json \<Rightarrow> json list option"

definition astimezone :: "pylib \<Rightarrow> datetime \<Rightarrow> datetime" where
  "astimezone lib d =
     (case utcoffset d of
        None \<Rightarrow> d\<lparr>utcoffset := Some (local_offset_wall lib (wall d))\<rparr>
      | Some off \<Rightarrow>
          (let inst = wall d - off; off' = local_offset_utc lib inst
           in \<lparr>wall = inst + off', utcoffset = Some off'\<rparr>))"

subsection \<open>Paths and their strings\<close>

fun join_slash :: "string list \<Rightarrow> string" where
  "join_slash [] = []"
| "join_slash [s] = s"
| "join_slash (s # t # ss) = s @ ''/'' @ join_slash (t # ss)"

definition is_root :: "string \<Rightarrow> bool" where
  "is_root s = (s = ''/'' \<or> s = ''//'')"

text \<open>\<^verbatim>\<open>str(path)\<close>: the root, then the segments joined by slashes; \<^verbatim>\<open>.\<close> for no part.\<close>

fun path_str :: "path \<Rightarrow> string" where
  "path_str [] = ''.''"
| "path_str (r # segs) = (if is_root r then r @ join_slash segs else join_slash (r # segs))"

fun split_slash :: "string \<Rightarrow> string list" where
  "split_slash [] = [[]]"
| "split_slash (c # cs) =
     (if c = CHR ''/'' then [] # split_slash cs
      else (case split_slash cs of [] \<Rightarrow> [[c]] | seg # segs \<Rightarrow> (c # seg) # segs))"

definition keep_segment :: "string \<Rightarrow> bool" where
  "keep_segment s = (s \<noteq> [] \<and> s \<noteq> ''.'')"

text \<open>
  \<^verbatim>\<open>Path(s)\<close> on POSIX: one leading slash (or three and more) is the root \<^verbatim>\<open>/\<close>, exactly
  two are the root \<^verbatim>\<open>//\<close>; empty segments and \<^verbatim>\<open>.\<close> segments are dropped.
\<close>

definition Path :: "string \<Rightarrow> path" where
  "Path s =
     (let root = (if take 2 s = ''//'' \<and> take 3 s \<noteq> ''///'' then [''//'']
                  else if take 1 s = ''/'' then [''/''] else [])
      in root @ filter keep_segment (split_slash s))"

subsection \<open>The encoder\<close>

text \<open>
  \<^verbatim>\<open>_Encoder.default\<close>: called by \<^verbatim>\<open>json\<close> for an object it cannot serialise itself. Every
  object passes \<^verbatim>\<open>inspect.isclass(type(obj))\<close>. A dataclass instance has a \<^verbatim>\<open>__dict__\<close>;
  datetime and Path objects have none.
\<close>

definition TYPE_KEY :: string where
  "TYPE_KEY = ''_type''"

fun encoder_default :: "pylib \<Rightarrow> pyval \<Rightarrow> builtin + (string \<times> pyval) list" where
  "encoder_default lib (PTarget u c) =
     Inr [(''updated_at'', u), (''current'', c), (TYPE_KEY, PStr ''Target'')]"
| "encoder_default lib (PWallpaper su ms mu) =
     Inr [(''startpage_used'', su), (''mobile_suitable'', ms), (''mobile_used'', mu),
          (TYPE_KEY, PStr ''Wallpaper'')]"
| "encoder_default lib (PDatetime d) =
     Inr [(''datetime'', PStr (isoformat lib d)), (TYPE_KEY, PStr ''datetime'')]"
| "encoder_default lib (PPath p) =
     Inr [(''path'', PStr (path_str p)), (TYPE_KEY, PStr ''PosixPath'')]"
| "encoder_default lib _ = Inl TypeError"

fun sequence_sum :: "('e + 'a) list \<Rightarrow> 'e + 'a list" where
  "sequence_sum [] = Inr []"
| "sequence_sum (x # xs) =
     (case x of Inl e \<Rightarrow> Inl e
      | Inr v \<Rightarrow> (case sequence_sum xs of Inl e \<Rightarrow> Inl e | Inr vs \<Rightarrow> Inr (v # vs)))"

text \<open>
  \<^verbatim>\<open>json.dump(..., cls=_Encoder)\<close> as far as the document tree: \<^verbatim>\<open>None\<close>, booleans,
  integers, strings, lists and dicts are written natively; any other object is replaced
  by what \<^verbatim>\<open>default\<close> returns (a dict, or the \<^verbatim>\<open>TypeError\<close>), which is encoded in turn.
\<close>

fun dumps :: "pylib \<Rightarrow> pyval \<Rightarrow> builtin + json" where
  "dumps lib PNone = Inr JNull"
| "dumps lib (PBool b) = Inr (JBool b)"
| "dumps lib (PInt i) = Inr (JInt i)"
| "dumps lib (PStr s) = Inr (JStr s)"
| "dumps lib (PList vs) =
     (case sequence_sum (map (dumps lib) vs) of Inl e \<Rightarrow> Inl e | Inr js \<Rightarrow> Inr (JArr js))"
| "dumps lib (PDict kvs) =
     (case sequence_sum (map (dumps lib) (map snd kvs)) of
        Inl e \<Rightarrow> Inl e
      | Inr js \<Rightarrow> Inr (JObj (zip (map fst kvs) js)))"
| "dumps lib (PTarget u c) =
     (case sequence_sum [dumps lib u, dumps lib c] of
        Inl e \<Rightarrow> Inl e
      | Inr js \<Rightarrow> Inr (JObj (zip [''updated_at'', ''current''] js @ [(TYPE_KEY, JStr ''Target'')])))"
| "dumps lib (PWallpaper su ms mu) =
     (case sequence_sum [dumps lib su, dumps lib ms, dumps lib mu] of
        Inl e \<Rightarrow> Inl e
      | Inr js \<Rightarrow>
          Inr (JObj (zip [''startpage_used'', ''mobile_suitable'', ''mobile_used''] js
                     @ [(TYPE_KEY, JStr ''Wallpaper'')])))"
| "dumps lib (PDatetime d) =
     Inr (JObj [(''datetime'', JStr (isoformat lib d)), (TYPE_KEY, JStr ''datetime'')])"
| "dumps lib (PPath p) =
     Inr (JObj [(''path'', JStr (path_str p)), (TYPE_KEY, JStr ''PosixPath'')])"
| "dumps lib (PBytes b) = Inl TypeError"

subsection \<open>The decoder\<close>

text \<open>A Python dict built from items: a repeated key keeps its first place and the last value.\<close>

fun dict_set :: "(string \<times> 'a) list \<Rightarrow> string \<Rightarrow> 'a \<Rightarrow> (string \<times> 'a) list" where
  "dict_set [] k v = [(k, v)]"
| "dict_set ((k', v') # kvs) k v =
     (if k' = k then (k, v) # kvs else (k', v') # dict_set kvs k v)"

definition dict_of_items :: "(string \<times> 'a) list \<Rightarrow> (string \<times> 'a) list" where
  "dict_of_items kvs = foldl (\<lambda>d (k, v). dict_set d k v) [] kvs"

definition dict_del :: "(string \<times> 'a) list \<Rightarrow> string \<Rightarrow> (string \<times> 'a) list" where
  "dict_del d k = filter (\<lambda>kv. fst kv \<noteq> k) d"

text \<open>
  Calling a dataclass with keyword arguments: a keyword that is no field is a
  \<^verbatim>\<open>TypeError\<close>, a field without a keyword takes its default.
\<close>

definition field_or :: "(string \<times> pyval) list \<Rightarrow> string \<Rightarrow> pyval \<Rightarrow> pyval" where
  "field_or obj k dflt = (case map_of obj k of None \<Rightarrow> dflt | Some v \<Rightarrow> v)"

definition Target :: "(string \<times> pyval) list \<Rightarrow> builtin + pyval" where
  "Target obj =
     (if \<forall>k \<in> set (map fst obj). k \<in> set [''updated_at'', ''current'']
      then Inr (PTarget (field_or obj ''updated_at'' PNone) (field_or obj ''current'' PNone))
      else Inl TypeError)"

definition Wallpaper :: "(string \<times> pyval) list \<Rightarrow> builtin + pyval" where
  "Wallpaper obj =
     (if \<forall>k \<in> set (map fst obj). k \<in> set [''startpage_used'', ''mobile_suitable'', ''mobile_used'']
      then Inr (PWallpaper (field_or obj ''startpage_used'' (PBool False))
                           (field_or obj ''mobile_suitable'' (PBool False))
                           (field_or obj ''mobile_used'' (PBool False)))
      else Inl TypeError)"

text \<open>
  \<^verbatim>\<open>getattr(self.data_class, type_)(**obj)\<close>: the attribute name must be a string; the
  nested dataclasses are attributes of the class; any other name is looked up in the
  rest of the class and is an \<^verbatim>\<open>AttributeError\<close> when the class has no such attribute.
\<close>

definition getattr_call :: "pylib \<Rightarrow> pyval \<Rightarrow> (string \<times> pyval) list \<Rightarrow> builtin + pyval" where
  "getattr_call lib tag obj =
     (case tag of
        PStr name \<Rightarrow>
          (if name = ''Target'' then Target obj
           else if name = ''Wallpaper'' then Wallpaper obj
           else (case class_attr_call lib name of
                   None \<Rightarrow> Inl AttributeError
                 | Some f \<Rightarrow> f obj))
      | _ \<Rightarrow> Inl TypeError)"

text \<open>
  \<^verbatim>\<open>_Decoder.decode\<close>, the \<^verbatim>\<open>object_hook\<close>. The pattern \<^verbatim>\<open>case self.data_class\<close> compares the
  tag with the class object itself, which no decoded JSON value equals, so that branch
  is never taken and the wildcard branch follows the two literal ones.
\<close>

definition decode :: "pylib \<Rightarrow> (string \<times> pyval) list \<Rightarrow> builtin + pyval" where
  "decode lib obj =
     (case map_of obj TYPE_KEY of
        Some tag \<Rightarrow>
          (let obj' = dict_del obj TYPE_KEY in
           if tag = PStr ''datetime'' then
             (case map_of obj' ''datetime'' of
                None \<Rightarrow> Inl KeyError
              | Some (PStr s) \<Rightarrow>
                  (case fromisoformat lib s of
                     Inl e \<Rightarrow> Inl e
                   | Inr d \<Rightarrow> Inr (PDatetime (astimezone lib d)))
              | Some _ \<Rightarrow> Inl TypeError)
           else if tag = PStr ''PosixPath'' then
             (case map_of obj' ''path'' of
                None \<Rightarrow> Inl KeyError
              | Some (PStr s) \<Rightarrow> Inr (PPath (Path s))
              | Some (PPath p) \<Rightarrow> Inr (PPath p)
              | Some _ \<Rightarrow> Inl TypeError)
           else getattr_call lib tag obj')
      | None \<Rightarrow> Inr (PDict obj))"

text \<open>
  \<^verbatim>\<open>json.load(..., object_hook=decode)\<close> on a parsed document: values are built bottom-up
  and every JSON object, once its members are built, is replaced by what the hook
  returns for it; an exception of the hook ends the load.
\<close>

fun loads :: "pylib \<Rightarrow> json \<Rightarrow> builtin + pyval" where
  "loads lib JNull = Inr PNone"
| "loads lib (JBool b) = Inr (PBool b)"
| "loads lib (JInt i) = Inr (PInt i)"
| "loads lib (JStr s) = Inr (PStr s)"
| "loads lib (JArr js) =
     (case sequence_sum (map (loads lib) js) of Inl e \<Rightarrow> Inl e | Inr vs \<Rightarrow> Inr (PList vs))"
| "loads lib (JObj kjs) =
     (case sequence_sum (map (loads lib) (map snd kjs)) of
        Inl e \<Rightarrow> Inl e
      | Inr vs \<Rightarrow> decode lib (dict_of_items (zip (map fst kjs) vs)))"

subsection \<open>What the round trip preserves\<close>

text \<open>
  \<open>roundtrip\<close> is decode after encode. \<open>localized\<close> is the value with \<^verbatim>\<open>astimezone()\<close>
  applied to every timestamp in it. \<open>py_eq\<close> is Python's \<^verbatim>\<open>==\<close> on these values as far as
  timestamps go: two aware datetimes are equal when they are the same instant, a naive
  and an aware one never are; everything else is compared structurally and in order
  (Python compares dicts without regard to order, so \<open>py_eq\<close> implies \<^verbatim>\<open>==\<close>).
\<close>

definition roundtrip :: "pylib \<Rightarrow> pyval \<Rightarrow> builtin + pyval" where
  "roundtrip lib x = (case dumps lib x of Inl e \<Rightarrow> Inl e | Inr j \<Rightarrow> loads lib j)"

fun localized :: "pylib \<Rightarrow> pyval \<Rightarrow> pyval" where
  "localized lib (PDatetime d) = PDatetime (astimezone lib d)"
| "localized lib (PList vs) = PList (map (localized lib) vs)"
| "localized lib (PDict kvs) = PDict (map (map_prod id (localized lib)) kvs)"
| "localized lib (PTarget u c) = PTarget (localized lib u) (localized lib c)"
| "localized lib (PWallpaper su ms mu) =
     PWallpaper (localized lib su) (localized lib ms) (localized lib mu)"
| "localized lib v = v"

definition utc :: "datetime \<Rightarrow> datetime" where
  "utc d = (case utcoffset d of None \<Rightarrow> d
            | Some off \<Rightarrow> \<lparr>wall = wall d - off, utcoffset = Some 0\<rparr>)"

fun canon :: "pyval \<Rightarrow> pyval" where
  "canon (PDatetime d) = PDatetime (utc d)"
| "canon (PList vs) = PList (map canon vs)"
| "canon (PDict kvs) = PDict (map (map_prod id canon) kvs)"
| "canon (PTarget u c) = PTarget (canon u) (canon c)"
| "canon (PWallpaper su ms mu) = PWallpaper (canon su) (canon ms) (canon mu)"
| "canon v = v"

definition py_eq :: "pyval \<Rightarrow> pyval \<Rightarrow> bool" where
  "py_eq a b = (canon a = canon b)"

text \<open>
  The parts of a Path object: segments are non-empty, hold no slash and are not \<^verbatim>\<open>.\<close>;
  only the first part can be a root.
\<close>

definition valid_segment :: "string \<Rightarrow> bool" where
  "valid_segment s = (s \<noteq> [] \<and> s \<noteq> ''.'' \<and> CHR ''/'' \<notin> set s)"

definition valid_path :: "path \<Rightarrow> bool" where
  "valid_path p =
     (case p of [] \<Rightarrow> True
      | r # segs \<Rightarrow> (is_root r \<or> valid_segment r) \<and> list_all valid_segment segs)"

text \<open>
  The values the codec supports: no object without an encoding rule; paths are Path
  objects; dict keys are distinct (as in any dict) and none is the reserved key; and
  \<^verbatim>\<open>fromisoformat\<close> reads back what \<^verbatim>\<open>isoformat\<close> wrote for the timestamps of the value.
\<close>

fun supported :: "pylib \<Rightarrow> pyval \<Rightarrow> bool" where
  "supported lib (PDatetime d) = (fromisoformat lib (isoformat lib d) = Inr d)"
| "supported lib (PPath p) = valid_path p"
| "supported lib (PList vs) = list_all (supported lib) vs"
| "supported lib (PDict kvs) =
     (distinct (map fst kvs) \<and> TYPE_KEY \<notin> set (map fst kvs)
      \<and> list_all (supported lib) (map snd kvs))"
| "supported lib (PTarget u c) = (supported lib u \<and> supported lib c)"
| "supported lib (PWallpaper su ms mu) = (supported lib su \<and> supported lib ms \<and> supported lib mu)"
| "supported lib (PBytes b) = False"
| "supported lib v = True"

fun all_aware :: "pyval \<Rightarrow> bool" where
  "all_aware (PDatetime d) = (utcoffset d \<noteq> None)"
| "all_aware (PList vs) = list_all all_aware vs"
| "all_aware (PDict kvs) = list_all all_aware (map snd kvs)"
| "all_aware (PTarget u c) = (all_aware u \<and> all_aware c)"
| "all_aware (PWallpaper su ms mu) = (all_aware su \<and> all_aware ms \<and> all_aware mu)"
| "all_aware v = True"

text \<open>
  A library for the concrete runs below: a machine one hour east of UTC, ISO strings
  for the timestamps the runs use, a class with no attributes beyond the ones the
  source gives it by name, and a buffer that holds every document.
\<close>

definition epoch_naive :: datetime where
  "epoch_naive = \<lparr>wall = 0, utcoffset = None\<rparr>"

definition epoch_utc :: datetime where
  "epoch_utc = \<lparr>wall = 0, utcoffset = Some 0\<rparr>"

definition epoch_local :: datetime where
  "epoch_local = \<lparr>wall = 0, utcoffset = Some 3600000000\<rparr>"

definition iso_table :: "(datetime \<times> string) list" where
  "iso_table =
     [(epoch_naive, ''1970-01-01T00:00:00''),
      (epoch_utc, ''1970-01-01T00:00:00+00:00''),
      (epoch_local, ''1970-01-01T00:00:00+01:00'')]"

definition lib_sample :: pylib where
  "lib_sample =
     \<lparr>isoformat = (\<lambda>d. case map_of iso_table d of Some s \<Rightarrow> s | None \<Rightarrow> []),
      fromisoformat = (\<lambda>s. case map_of (map (\<lambda>(d, s). (s, d)) iso_table) s of
                             Some d \<Rightarrow> Inr d | None \<Rightarrow> Inl ValueError),
      local_offset_utc = (\<lambda>_. 3600000000),
      local_offset_wall = (\<lambda>_. 3600000000),
      class_attr_call = (\<lambda>_. None),
      dump_flushed = (\<lambda>_. None)\<rparr>"

section \<open>The database session\<close>

text \<open>
  What the database file gives when it is read: a failing read, bytes that are no
  UTF-8 text, text that is no JSON document, or a JSON document. The parser calls the
  object hook on every object as soon as the text completes it, so of a text that is
  no document the model keeps the JSON values that the text completes before the
  parser gives up, the outermost ones in the order of the text (an empty file completes
  none).

  The world is what the code acts on: that file (\<open>None\<close>: it does not exist), which
  system calls fail, the trace of what was done to the file object, the lock and the
  startpage link, the directory tree with the working directory, the clock and the
  numbers the random generator will give. \<open>write_fails\<close> is the write that an
  overflowing buffer makes during \<^verbatim>\<open>json.dump\<close>, \<open>flush_fails\<close> the write of the buffered text
  when the file object is flushed, \<open>link_fails\<close> the making of the startpage link.
\<close>

datatype content = Unreadable | Undecodable | Malformed "json list" | Document json

datatype lock_kind = LOCK_SH | LOCK_EX

datatype event =
    Opened string
  | Flocked lock_kind
  | Seek0
  | Truncated
  | Written json
  | Unlocked
  | Closed
  | Warned string
  | Installed path path

datatype node = File | Dir "(string \<times> node) list"

record world =
  db_file :: "content option"
  open_fails :: bool
  lock_fails :: bool
  unlock_fails :: bool
  write_fails :: bool
  flush_fails :: bool
  link_fails :: bool
  trace :: "event list"
  root :: node
  cwd :: "string list"
  clock :: int
  rnd :: "nat list"

text \<open>
  The instance: \<open>attrs\<close> are the attributes in \<^verbatim>\<open>vars(self)\<close> that the record owns, the
  other fields are the private ones (\<^verbatim>\<open>_mode\<close>, \<^verbatim>\<open>_writeback\<close>, the lock object's operation
  and state, the file object's state: whether it is closed, and the document whose
  text it holds in its buffer, not yet in the file).
\<close>

record session =
  mode :: string
  writeback :: bool
  attrs :: "(string \<times> pyval) list"
  lock_op :: lock_kind
  locked :: bool
  closed :: bool
  pending :: "json option"

definition log :: "event \<Rightarrow> world \<Rightarrow> world" where
  "log e w = w\<lparr>trace := trace w @ [e]\<rparr>"

text \<open>The mode table of \<^verbatim>\<open>_open\<close>.\<close>

definition file_mode :: "string \<Rightarrow> string option" where
  "file_mode m =
     map_of [(''r'', ''r''), (''w'', ''r+''), (''n'', ''w+''), (''c'', ''x'')] m"

datatype oserror = FileExistsError | FileNotFoundError | OtherOSError

text \<open>
  The built-in \<^verbatim>\<open>open\<close> on the database path: \<^verbatim>\<open>r\<close> and \<^verbatim>\<open>r+\<close> need the file, \<^verbatim>\<open>x\<close> refuses
  an existing one and creates an empty one, \<^verbatim>\<open>w+\<close> creates or empties it. \<open>open_fails\<close>
  is any other failure of the call (permissions, a directory in the way).
\<close>

definition fopen :: "string \<Rightarrow> world \<Rightarrow> oserror + world" where
  "fopen m w =
     (if open_fails w then Inl OtherOSError
      else if m = ''x'' then
        (case db_file w of
           Some _ \<Rightarrow> Inl FileExistsError
         | None \<Rightarrow> Inr (log (Opened m) (w\<lparr>db_file := Some (Malformed [])\<rparr>)))
      else if m = ''w+'' then Inr (log (Opened m) (w\<lparr>db_file := Some (Malformed [])\<rparr>))
      else
        (case db_file w of
           None \<Rightarrow> Inl FileNotFoundError
         | Some _ \<Rightarrow> Inr (log (Opened m) w)))"

text \<open>
  The generated \<^verbatim>\<open>__init__\<close> of the dataclass \<^verbatim>\<open>_WallpaperData\<close>, called as
  \<^verbatim>\<open>super().__init__(**db_dict)\<close>: the argument must be a mapping whose keys are field names;
  the instance gets every field, from the mapping or from the field's default.
\<close>

definition data_fields :: "(string \<times> pyval) list" where
  "data_fields =
     [(''base_directory'', PNone), (''wallpapers'', PDict []), (''updated_at'', PNone),
      (''created_at'', PNone), (''should_update'', PBool False),
      (''startpage'', PTarget PNone PNone)]"

definition dataclass_init :: "pyval \<Rightarrow> builtin + (string \<times> pyval) list" where
  "dataclass_init db_dict =
     (case db_dict of
        PDict kvs \<Rightarrow>
          (if \<forall>k \<in> set (map fst kvs). k \<in> set (map fst data_fields)
           then Inr (map (\<lambda>(k, dflt). (k, field_or kvs k dflt)) data_fields)
           else Inl TypeError)
      | _ \<Rightarrow> Inl TypeError)"

text \<open>
  \<^verbatim>\<open>json.load\<close> with the object hook, inside the \<^verbatim>\<open>try\<close> of \<^verbatim>\<open>_open\<close>: only the parser's
  \<^verbatim>\<open>JSONDecodeError\<close> becomes \<^verbatim>\<open>DatabaseDecodeError\<close>. The read comes first, then the decoding
  of the bytes, then the parse, in which an exception of the hook on a completed object
  comes before the parser's error further on in the text.
\<close>

definition json_load :: "pylib \<Rightarrow> content \<Rightarrow> error + pyval" where
  "json_load lib c =
     (case c of
        Unreadable \<Rightarrow> Inl (Builtin OSError)
      | Undecodable \<Rightarrow> Inl (Builtin UnicodeDecodeError)
      | Malformed js \<Rightarrow>
          (case sequence_sum (map (loads lib) js) of
             Inl e \<Rightarrow> Inl (Builtin e)
           | Inr vs \<Rightarrow> Inl DatabaseDecodeError)
      | Document j \<Rightarrow> (case loads lib j of Inl e \<Rightarrow> Inl (Builtin e) | Inr v \<Rightarrow> Inr v))"

text \<open>
  \<^verbatim>\<open>WallpaperDatabase.__init__\<close> with \<^verbatim>\<open>_open\<close>: the result, and the world as the call leaves
  it. The lock is shared exactly when the mode is \<^verbatim>\<open>r\<close>. (Where the file is read it exists,
  since the open has succeeded.)
\<close>

definition open_db :: "pylib \<Rightarrow> string \<Rightarrow> world \<Rightarrow> (error + session) \<times> world" where
  "open_db lib m w =
     (case file_mode m of
        None \<Rightarrow> (Inl DatabaseModeError, w)
      | Some fm \<Rightarrow>
          (case fopen fm w of
             Inl FileExistsError \<Rightarrow> (Inl DatabaseExistsError, w)
           | Inl _ \<Rightarrow> (Inl DatabaseReadError, w)
           | Inr w1 \<Rightarrow>
               (let op = (if m = ''r'' then LOCK_SH else LOCK_EX);
                    s = \<lparr>mode = m, writeback = False, attrs = [], lock_op = op,
                         locked = False, closed = False, pending = None\<rparr>
                in if lock_fails w1 then (Inl DatabaseLockError, w1)
                   else
                     (let w2 = log (Flocked op) w1; s2 = s\<lparr>locked := True\<rparr>
                      in if m = ''r'' \<or> m = ''w'' then
                           (case db_file w2 of
                              None \<Rightarrow> (Inl DatabaseReadError, w2)
                            | Some c \<Rightarrow>
                                (case json_load lib c of
                                   Inl e \<Rightarrow> (Inl e, w2)
                                 | Inr db_dict \<Rightarrow>
                                     (case dataclass_init db_dict of
                                        Inl e \<Rightarrow> (Inl (Builtin e), w2)
                                      | Inr a \<Rightarrow> (Inr (s2\<lparr>attrs := a\<rparr>), w2))))
                         else (Inr s2, w2)))))"

definition enter :: "session \<Rightarrow> session" where
  "enter s = (if mode s \<noteq> ''r'' then s\<lparr>writeback := True\<rparr> else s)"

text \<open>
  \<^verbatim>\<open>save\<close>: seek to the start, truncate, then dump the attributes whose names do not
  start with an underscore. A closed file object refuses the seek; the seek flushes
  what an earlier dump left in the buffer; a file opened read-only refuses the
  truncation. The truncation empties the file at once. The dump writes to the file
  object as it encodes: an object without an encoding rule ends it with \<^verbatim>\<open>TypeError\<close>
  (the text encoded so far is in the buffer, which nothing in the program flushes
  afterwards, and is not followed). The text of a document that the buffer holds
  reaches the file only when the file object is closed; when the text overflows the
  buffer, a part of it is written during the dump, and that write failing is the
  \<^verbatim>\<open>DatabaseWriteError\<close> (the writes of one dump are taken as one). \<open>Written\<close> in the trace is
  the completed call of \<^verbatim>\<open>json.dump\<close>.
\<close>

definition public_attrs :: "(string \<times> pyval) list \<Rightarrow> (string \<times> pyval) list" where
  "public_attrs a = filter (\<lambda>kv. take 1 (fst kv) \<noteq> ''_'') a"

definition save :: "pylib \<Rightarrow> session \<Rightarrow> world \<Rightarrow> error option \<times> session \<times> world" where
  "save lib s w =
     (if closed s then (Some (Builtin ValueError), s, w)
      else if pending s \<noteq> None \<and> flush_fails w then (Some (Builtin OSError), s, w)
      else
        (let w1 = log Seek0 w; s1 = s\<lparr>pending := None\<rparr> in
         if mode s = ''r'' then (Some (Builtin UnsupportedOperation), s1, w1)
         else
           (let w2 = log Truncated (w1\<lparr>db_file := Some (Malformed [])\<rparr>) in
            case dumps lib (PDict (public_attrs (attrs s))) of
              Inl e \<Rightarrow> (Some (Builtin e), s1, w2)
            | Inr j \<Rightarrow>
                (case dump_flushed lib j of
                   None \<Rightarrow> (None, s1\<lparr>pending := Some j\<rparr>, log (Written j) w2)
                 | Some js \<Rightarrow>
                     if write_fails w2 then (Some DatabaseWriteError, s1, w2)
                     else (None, s1\<lparr>pending := Some j\<rparr>,
                           log (Written j) (w2\<lparr>db_file := Some (Malformed js)\<rparr>))))))"

text \<open>
  \<^verbatim>\<open>close\<close>: release the lock if it is held (a failing release is a warning, and the lock
  object still reads locked), then close the file object if it is open. Closing the
  file object flushes its buffer: the buffered document becomes the content of the
  file, or the write fails, and then the file object is closed all the same and the
  \<^verbatim>\<open>OSError\<close> leaves \<^verbatim>\<open>close\<close>, which has no handler for it.
\<close>

definition close :: "session \<Rightarrow> world \<Rightarrow> error option \<times> session \<times> world" where
  "close s w =
     (let (s1, w1) =
            (if locked s then
               (if unlock_fails w
                then (s, log (Warned ''Failed to release lock on database'') w)
                else (s\<lparr>locked := False\<rparr>, log Unlocked w))
             else (s, w))
      in if closed s1 then (None, s1, w1)
         else
           (case pending s1 of
              None \<Rightarrow> (None, s1\<lparr>closed := True\<rparr>, log Closed w1)
            | Some j \<Rightarrow>
                if flush_fails w1
                then (Some (Builtin OSError), s1\<lparr>closed := True, pending := None\<rparr>, log Closed w1)
                else (None, s1\<lparr>closed := True, pending := None\<rparr>,
                      log Closed (w1\<lparr>db_file := Some (Document j)\<rparr>))))"

text \<open>
  \<^verbatim>\<open>__exit__\<close>: \<open>ok\<close> says that the block raised nothing (\<^verbatim>\<open>exc_type is None\<close>). An
  exception of \<^verbatim>\<open>save\<close> leaves the method before \<^verbatim>\<open>close\<close> is called.
\<close>

definition exit_db :: "pylib \<Rightarrow> session \<Rightarrow> bool \<Rightarrow> world \<Rightarrow> error option \<times> session \<times> world" where
  "exit_db lib s ok w =
     (if ok \<and> writeback s then
        (case save lib s w of
           (Some e, s1, w1) \<Rightarrow> (Some e, s1, w1)
         | (None, s1, w1) \<Rightarrow> close s1 w1)
      else close s w)"

text \<open>
  \<^verbatim>\<open>with open(database_path, mode) as db: body\<close>. The body works on the instance and the
  world; when it raises, \<^verbatim>\<open>__exit__\<close> runs with the exception and the exception goes on
  to the caller.
\<close>

definition with_db ::
  "pylib \<Rightarrow> string \<Rightarrow> (session \<Rightarrow> world \<Rightarrow> (error + 'r) \<times> session \<times> world) \<Rightarrow> world
     \<Rightarrow> (error + 'r) \<times> world" where
  "with_db lib m body w =
     (case open_db lib m w of
        (Inl e, w1) \<Rightarrow> (Inl e, w1)
      | (Inr s, w1) \<Rightarrow>
          (case body (enter s) w1 of
             (Inl e, s2, w2) \<Rightarrow>
               (case exit_db lib s2 False w2 of
                  (Some e', s3, w3) \<Rightarrow> (Inl e', w3)
                | (None, s3, w3) \<Rightarrow> (Inl e, w3))
           | (Inr r, s2, w2) \<Rightarrow>
               (case exit_db lib s2 True w2 of
                  (Some e', s3, w3) \<Rightarrow> (Inl e', w3)
                | (None, s3, w3) \<Rightarrow> (Inr r, w3))))"

section \<open>The wallpaper directory\<close>

text \<open>
  The directory tree of the world: \<open>root\<close> is the directory \<^verbatim>\<open>/\<close>. A path is resolved from
  the working directory; a root part starts again at the top and \<^verbatim>\<open>..\<close> goes one
  directory up (there are no symbolic links in this tree).
\<close>

function lookup :: "node \<Rightarrow> string list \<Rightarrow> node option" where
  "lookup n [] = Some n"
| "lookup File (s # ss) = None"
| "lookup (Dir es) (s # ss) = (case map_of es s of None \<Rightarrow> None | Some c \<Rightarrow> lookup c ss)"
  by pat_completeness auto
termination
  by (relation "measure (\<lambda>(n, p). length p)") auto

definition resolve :: "world \<Rightarrow> path \<Rightarrow> string list" where
  "resolve w p =
     foldl (\<lambda>acc part. if is_root part then []
                        else if part = ''..'' then butlast acc
                        else acc @ [part]) (cwd w) p"

definition is_dir :: "world \<Rightarrow> path \<Rightarrow> bool" where
  "is_dir w p = (case lookup (root w) (resolve w p) of Some (Dir es) \<Rightarrow> True | _ \<Rightarrow> False)"

definition is_file :: "world \<Rightarrow> path \<Rightarrow> bool" where
  "is_file w p = (case lookup (root w) (resolve w p) of Some File \<Rightarrow> True | _ \<Rightarrow> False)"

text \<open>\<^verbatim>\<open>Path.absolute()\<close>: a relative path is put under the working directory.\<close>

definition absolute :: "world \<Rightarrow> path \<Rightarrow> path" where
  "absolute w p = (case p of r # segs \<Rightarrow> if is_root r then p else ''/'' # cwd w @ p
                   | [] \<Rightarrow> ''/'' # cwd w)"

text \<open>
  \<^verbatim>\<open>base / key\<close> for a path and a string: the string is parsed as a path; an absolute
  one replaces the base.
\<close>

definition path_join :: "path \<Rightarrow> string \<Rightarrow> path" where
  "path_join base key =
     (case Path key of r # segs \<Rightarrow> if is_root r then r # segs else base @ r # segs
      | [] \<Rightarrow> base)"

text \<open>
  Everything below a directory, files and directories alike, as paths relative to it,
  a directory before what it holds. (The order in which Python's walk yields the
  entries of one directory is the operating system's; here it is the tree's.)
\<close>

fun descendants :: "node \<Rightarrow> string list list" where
  "descendants File = []"
| "descendants (Dir es) =
     concat (map (\<lambda>e. [fst e] # map ((#) (fst e)) (descendants (snd e))) es)"

text \<open>
  \<^verbatim>\<open>directory.rglob("*")\<close>: the paths of everything below the directory, each made of the
  directory's own parts and the relative ones; nothing when the path is no directory.
\<close>

definition rglob :: "world \<Rightarrow> path \<Rightarrow> path list" where
  "rglob w directory =
     (case lookup (root w) (resolve w directory) of
        Some (Dir es) \<Rightarrow> map (\<lambda>rel. directory @ rel) (descendants (Dir es))
      | _ \<Rightarrow> [])"

text \<open>
  \<^verbatim>\<open>Path.suffix\<close>: the last part from its last dot on, unless that dot starts or ends the
  name.
\<close>

fun rfind :: "char \<Rightarrow> string \<Rightarrow> nat option" where
  "rfind c [] = None"
| "rfind c (x # xs) =
     (case rfind c xs of
        Some i \<Rightarrow> Some (Suc i)
      | None \<Rightarrow> if x = c then Some 0 else None)"

definition suffix :: "path \<Rightarrow> string" where
  "suffix p =
     (if p = [] \<or> is_root (last p) then []
      else (let name = last p in
            case rfind (CHR ''.'') name of
              None \<Rightarrow> []
            | Some i \<Rightarrow> if 0 < i \<and> i < length name - 1 then drop i name else []))"

text \<open>
  \<^verbatim>\<open>_list_wallpapers\<close>. The test for a hidden part reads \<^verbatim>\<open>file.parts\<close>, the parts of the whole
  path that the walk yields, the directory's own parts among them; the key is the
  path's string without its first \<^verbatim>\<open>len(str(directory)) + 1\<close> characters. (A part of a path
  is never empty, so \<^verbatim>\<open>part[0]\<close> is its first character.)
\<close>

definition hidden_part :: "string \<Rightarrow> bool" where
  "hidden_part part = (case part of [] \<Rightarrow> False | c # cs \<Rightarrow> c = CHR ''.'')"

definition image_suffixes :: "string list" where
  "image_suffixes = [''.png'', ''.jpeg'', ''.jpg'', ''.gif'']"

definition list_wallpapers :: "world \<Rightarrow> path \<Rightarrow> string list" where
  "list_wallpapers w directory =
     (let dir_len = length (path_str directory) + 1
      in map (\<lambda>file. drop dir_len (path_str file))
           (filter (\<lambda>file. \<not> (list_ex hidden_part file \<or> suffix file \<notin> set image_suffixes))
              (rglob w directory)))"

text \<open>
  A world for the concrete runs: the directory \<^verbatim>\<open>/home/walls\<close> with two images, a text
  file, a hidden directory and a subdirectory, and the directory \<^verbatim>\<open>/home/.walls\<close> with
  one image; no database file yet; no failing system call.
\<close>

definition tree_sample :: node where
  "tree_sample =
     Dir [(''home'',
           Dir [(''walls'',
                 Dir [(''wall1.png'', File), (''wall2.jpg'', File), (''notes.txt'', File),
                      (''.cache'', Dir [(''thumb.png'', File)]),
                      (''nature'', Dir [(''lake.gif'', File)])]),
                (''.walls'', Dir [(''a.png'', File)])])]"

definition world_sample :: world where
  "world_sample =
     \<lparr>db_file = None, open_fails = False, lock_fails = False, unlock_fails = False,
      write_fails = False, flush_fails = False, link_fails = False,
      trace = [], root = tree_sample, cwd = [''home''], clock = 0,
      rnd = []\<rparr>"

section \<open>create and refresh\<close>

text \<open>
  Reading an attribute of the instance: its own attribute, else the class attribute
  that the dataclass keeps for a field with a plain default, else \<^verbatim>\<open>AttributeError\<close>
  (\<^verbatim>\<open>wallpapers\<close> and \<^verbatim>\<open>startpage\<close> have default factories and no class attribute).
\<close>

definition class_defaults :: "(string \<times> pyval) list" where
  "class_defaults =
     [(''base_directory'', PNone), (''updated_at'', PNone), (''created_at'', PNone),
      (''should_update'', PBool False)]"

definition get_attr :: "session \<Rightarrow> string \<Rightarrow> builtin + pyval" where
  "get_attr db k =
     (case map_of (attrs db) k of
        Some v \<Rightarrow> Inr v
      | None \<Rightarrow> (case map_of class_defaults k of Some v \<Rightarrow> Inr v | None \<Rightarrow> Inl AttributeError))"

definition set_attr :: "session \<Rightarrow> string \<Rightarrow> pyval \<Rightarrow> session" where
  "set_attr db k v = db\<lparr>attrs := dict_set (attrs db) k v\<rparr>"

definition default_wallpaper :: pyval where
  "default_wallpaper = PWallpaper (PBool False) (PBool False) (PBool False)"

text \<open>\<^verbatim>\<open>datetime.now()\<close>: the clock's reading, naive.\<close>

definition now :: "world \<Rightarrow> pyval" where
  "now w = PDatetime \<lparr>wall = clock w, utcoffset = None\<rparr>"

text \<open>
  The block of \<^verbatim>\<open>refresh\<close>. \<^verbatim>\<open>_list_wallpapers\<close> calls \<^verbatim>\<open>rglob\<close> on the stored base directory,
  which only a Path has; \<^verbatim>\<open>keys()\<close> needs a dict. The two Python sets are lists without
  repetition here: the new keys in the order of the walk, the deleted ones in the
  order of the dict (Python's set order is arbitrary).
\<close>

definition refresh_body :: "session \<Rightarrow> world \<Rightarrow> (error + nat \<times> nat) \<times> session \<times> world" where
  "refresh_body db w =
     (case get_attr db ''base_directory'' of
        Inr (PPath directory) \<Rightarrow>
          (case get_attr db ''wallpapers'' of
             Inr (PDict walls) \<Rightarrow>
               (let walls_disk = remdups (list_wallpapers w directory);
                    walls_db = map fst walls;
                    walls_deleted = filter (\<lambda>k. k \<notin> set walls_disk) walls_db;
                    walls_new = filter (\<lambda>k. k \<notin> set walls_db) walls_disk;
                    walls1 = foldl (\<lambda>d k. dict_set d k default_wallpaper) walls walls_new;
                    walls2 = foldl dict_del walls1 walls_deleted;
                    db1 = set_attr db ''wallpapers'' (PDict walls2);
                    db2 = set_attr db1 ''updated_at'' (now w)
                in (Inr (length walls_new, length walls_deleted), db2, w))
           | Inr _ \<Rightarrow> (Inl (Builtin AttributeError), db, w)
           | Inl e \<Rightarrow> (Inl (Builtin e), db, w))
      | Inr _ \<Rightarrow> (Inl (Builtin AttributeError), db, w)
      | Inl e \<Rightarrow> (Inl (Builtin e), db, w))"

text \<open>\<^verbatim>\<open>refresh\<close>: the block in a session of mode \<^verbatim>\<open>w\<close>; the result is the pair (new, deleted).\<close>

definition refresh :: "pylib \<Rightarrow> world \<Rightarrow> (error + nat \<times> nat) \<times> world" where
  "refresh lib w = with_db lib ''w'' refresh_body w"

text \<open>
  The property \<^verbatim>\<open>database_info\<close> without the database path: wallpaper directory, total
  of wallpapers, created, updated, should update.
\<close>

definition py_len :: "pyval \<Rightarrow> builtin + nat" where
  "py_len v =
     (case v of
        PDict kvs \<Rightarrow> Inr (length kvs)
      | PList vs \<Rightarrow> Inr (length vs)
      | PStr s \<Rightarrow> Inr (length s)
      | PBytes b \<Rightarrow> Inr (length b)
      | _ \<Rightarrow> Inl TypeError)"

definition database_info :: "session \<Rightarrow> builtin + pyval \<times> nat \<times> pyval \<times> pyval \<times> pyval" where
  "database_info db =
     (case get_attr db ''base_directory'' of
        Inl e \<Rightarrow> Inl e
      | Inr bd \<Rightarrow>
     (case get_attr db ''wallpapers'' of
        Inl e \<Rightarrow> Inl e
      | Inr ws \<Rightarrow>
     (case py_len ws of
        Inl e \<Rightarrow> Inl e
      | Inr n \<Rightarrow>
     (case get_attr db ''created_at'' of
        Inl e \<Rightarrow> Inl e
      | Inr ca \<Rightarrow>
     (case get_attr db ''updated_at'' of
        Inl e \<Rightarrow> Inl e
      | Inr ua \<Rightarrow>
     (case get_attr db ''should_update'' of
        Inl e \<Rightarrow> Inl e
      | Inr su \<Rightarrow> Inr (bd, n, ca, ua, su)))))))"

text \<open>
  \<^verbatim>\<open>create\<close>: the base directory must be a directory; the mode is \<^verbatim>\<open>n\<close> with \<open>force\<close> and \<^verbatim>\<open>c\<close>
  without. (The database's parent directory, made when missing, is not part of the
  world. \<^verbatim>\<open>dict.fromkeys\<close> gives every key the same Wallpaper object; nothing changes it
  before it is written out.)
\<close>

definition create_body ::
  "path \<Rightarrow> session \<Rightarrow> world
     \<Rightarrow> (error + pyval \<times> nat \<times> pyval \<times> pyval \<times> pyval) \<times> session \<times> world" where
  "create_body base_directory db w =
     (let walls = list_wallpapers w base_directory;
          db1 = set_attr db ''base_directory'' (PPath base_directory);
          db2 = set_attr db1 ''wallpapers''
                  (PDict (dict_of_items (map (\<lambda>k. (k, default_wallpaper)) walls)));
          db3 = set_attr db2 ''created_at'' (now w)
      in (case database_info db3 of
            Inl e \<Rightarrow> (Inl (Builtin e), db3, w)
          | Inr db_info \<Rightarrow> (Inr db_info, db3, w)))"

definition create ::
  "pylib \<Rightarrow> path \<Rightarrow> bool \<Rightarrow> world \<Rightarrow> (error + pyval \<times> nat \<times> pyval \<times> pyval \<times> pyval) \<times> world" where
  "create lib base_directory force w =
     (if \<not> is_dir w base_directory then (Inl DatabaseDirectoryNotFoundError, w)
      else with_db lib (if force then ''n'' else ''c'') (create_body base_directory) w)"

section \<open>The startpage selection\<close>

text \<open>\<^verbatim>\<open>ex in p\<close> for two strings: \<open>ex\<close> occurs in \<open>p\<close>.\<close>

fun is_substring :: "string \<Rightarrow> string \<Rightarrow> bool" where
  "is_substring ex [] = (ex = [])"
| "is_substring ex (c # cs) = (take (length ex) (c # cs) = ex \<or> is_substring ex cs)"

definition excluded :: "string list \<Rightarrow> string \<Rightarrow> bool" where
  "excluded exclusions p = list_ex (\<lambda>ex. is_substring ex p) exclusions"

text \<open>
  \<^verbatim>\<open>random.choice\<close>: the element at the next number of the world's supply, taken modulo
  the length (index 0 once the supply is used up); \<^verbatim>\<open>IndexError\<close> on an empty list. Every
  run of the generator is some supply.
\<close>

definition choice :: "'a list \<Rightarrow> world \<Rightarrow> builtin + 'a \<times> world" where
  "choice xs w =
     (if xs = [] then Inl IndexError
      else (case rnd w of
              [] \<Rightarrow> Inr (xs ! 0, w)
            | r # rs \<Rightarrow> Inr (xs ! (r mod length xs), w\<lparr>rnd := rs\<rparr>)))"

text \<open>
  \<^verbatim>\<open>v.startpage_used = b\<close> on a value of the wallpaper dict. A Wallpaper takes it. Objects
  without a \<^verbatim>\<open>__dict__\<close> refuse the attribute. A Target object would take it as a new
  attribute, which the values here cannot record; likewise a Wallpaper object where the
  Target is expected.
\<close>

definition set_used :: "pyval \<Rightarrow> bool \<Rightarrow> builtin + pyval" where
  "set_used v b =
     (case v of
        PWallpaper su ms mu \<Rightarrow> Inr (PWallpaper (PBool b) ms mu)
      | PTarget u c \<Rightarrow> Inl Unmodelled
      | _ \<Rightarrow> Inl AttributeError)"

text \<open>\<^verbatim>\<open>db.wallpapers[wall_new].startpage_used = True\<close>.\<close>

definition mark_used :: "session \<Rightarrow> string \<Rightarrow> builtin + session" where
  "mark_used db wall_new =
     (case get_attr db ''wallpapers'' of
        Inl e \<Rightarrow> Inl e
      | Inr (PDict walls) \<Rightarrow>
          (case map_of walls wall_new of
             None \<Rightarrow> Inl KeyError
           | Some v \<Rightarrow>
               (case set_used v True of
                  Inl e \<Rightarrow> Inl e
                | Inr v' \<Rightarrow> Inr (set_attr db ''wallpapers'' (PDict (dict_set walls wall_new v')))))
      | Inr _ \<Rightarrow> Inl TypeError)"

text \<open>\<^verbatim>\<open>db.startpage.current = wall_path\<close>, then \<^verbatim>\<open>db.startpage.updated_at = datetime.now()\<close>.\<close>

definition set_target :: "session \<Rightarrow> path \<Rightarrow> world \<Rightarrow> builtin + session" where
  "set_target db wall_path w =
     (case get_attr db ''startpage'' of
        Inl e \<Rightarrow> Inl e
      | Inr (PTarget u c) \<Rightarrow> Inr (set_attr db ''startpage'' (PTarget (now w) (PPath wall_path)))
      | Inr (PWallpaper su ms mu) \<Rightarrow> Inl Unmodelled
      | Inr _ \<Rightarrow> Inl AttributeError)"

text \<open>
  The inner function \<^verbatim>\<open>_set_startpage\<close>: its loop runs \<^verbatim>\<open>len(walls_unused)\<close> times, counted
  when the loop starts. It returns whether a wallpaper was installed, with the list
  \<^verbatim>\<open>walls_unused\<close> (a variable of the enclosing function), the instance and the world as it
  leaves them. Installing is the symbolic link to the file's absolute path, made in a
  temporary directory and moved onto \<^verbatim>\<open>startpage_background\<close>; when a step of it fails, its
  \<^verbatim>\<open>OSError\<close> leaves the function.
\<close>

fun set_startpage_loop ::
  "nat \<Rightarrow> path \<Rightarrow> string list \<Rightarrow> session \<Rightarrow> world
     \<Rightarrow> (error + bool) \<times> string list \<times> session \<times> world" where
  "set_startpage_loop 0 startpage_background walls_unused db w = (Inr False, walls_unused, db, w)"
| "set_startpage_loop (Suc n) startpage_background walls_unused db w =
     (case choice walls_unused w of
        Inl e \<Rightarrow> (Inl (Builtin e), walls_unused, db, w)
      | Inr (wall_new, w1) \<Rightarrow>
          (case get_attr db ''base_directory'' of
             Inr (PPath base) \<Rightarrow>
               (let wall_path = path_join base wall_new in
                if is_file w1 wall_path then
                  (if link_fails w1 then (Inl (Builtin OSError), walls_unused, db, w1)
                   else
                     (let w2 = log (Installed startpage_background (absolute w1 wall_path)) w1 in
                      case mark_used db wall_new of
                        Inl e \<Rightarrow> (Inl (Builtin e), walls_unused, db, w2)
                      | Inr db1 \<Rightarrow>
                          (case set_target db1 wall_path w2 of
                             Inl e \<Rightarrow> (Inl (Builtin e), walls_unused, db1, w2)
                           | Inr db2 \<Rightarrow> (Inr True, walls_unused, db2, w2))))
                else
                  set_startpage_loop n startpage_background (remove1 wall_new walls_unused)
                    (set_attr db ''should_update'' (PBool True))
                    (log (Warned ''Database contains non-existent file and should be refreshed'') w1))
           | Inr _ \<Rightarrow> (Inl (Builtin TypeError), walls_unused, db, w1)
           | Inl e \<Rightarrow> (Inl (Builtin e), walls_unused, db, w1)))"

definition set_startpage_inner ::
  "path \<Rightarrow> string list \<Rightarrow> session \<Rightarrow> world \<Rightarrow> (error + bool) \<times> string list \<times> session \<times> world" where
  "set_startpage_inner startpage_background walls_unused db w =
     set_startpage_loop (length walls_unused) startpage_background walls_unused db w"

text \<open>
  \<^verbatim>\<open>[k for k, v in walls_included.items() if v.startpage_used is False]\<close>: only a Wallpaper
  has the attribute.
\<close>

fun unused_keys :: "(string \<times> pyval) list \<Rightarrow> builtin + string list" where
  "unused_keys [] = Inr []"
| "unused_keys ((k, v) # kvs) =
     (case v of
        PWallpaper su ms mu \<Rightarrow>
          (case unused_keys kvs of
             Inl e \<Rightarrow> Inl e
           | Inr ks \<Rightarrow> Inr (if su = PBool False then k # ks else ks))
      | _ \<Rightarrow> Inl AttributeError)"

text \<open>
  \<^verbatim>\<open>for k, v in db.wallpapers.items(): v.startpage_used = False\<close>, over every entry of the
  record, excluded ones too.
\<close>

fun reset_all :: "(string \<times> pyval) list \<Rightarrow> builtin + (string \<times> pyval) list" where
  "reset_all [] = Inr []"
| "reset_all ((k, v) # kvs) =
     (case set_used v False of
        Inl e \<Rightarrow> Inl e
      | Inr v' \<Rightarrow> (case reset_all kvs of Inl e \<Rightarrow> Inl e | Inr kvs' \<Rightarrow> Inr ((k, v') # kvs')))"

definition reset_used :: "session \<Rightarrow> builtin + session" where
  "reset_used db =
     (case get_attr db ''wallpapers'' of
        Inl e \<Rightarrow> Inl e
      | Inr (PDict walls) \<Rightarrow>
          (case reset_all walls of
             Inl e \<Rightarrow> Inl e
           | Inr walls' \<Rightarrow> Inr (set_attr db ''wallpapers'' (PDict walls')))
      | Inr _ \<Rightarrow> Inl AttributeError)"

text \<open>
  The loop \<^verbatim>\<open>for _ in range(2)\<close> with its \<^verbatim>\<open>else\<close>: a round that installs a wallpaper ends
  the function, which has no \<^verbatim>\<open>return\<close> statement and so returns \<^verbatim>\<open>None\<close>; after a round
  that fails with the list empty, the list becomes all included keys and every flag of
  the record is reset; when no round is left, \<^verbatim>\<open>StartpageSetError\<close>.
\<close>

fun set_startpage_rounds ::
  "nat \<Rightarrow> path \<Rightarrow> string list \<Rightarrow> string list \<Rightarrow> session \<Rightarrow> world
     \<Rightarrow> (error + pyval) \<times> session \<times> world" where
  "set_startpage_rounds 0 startpage_background included walls_unused db w =
     (Inl StartpageSetError, db, w)"
| "set_startpage_rounds (Suc n) startpage_background included walls_unused db w =
     (case set_startpage_inner startpage_background walls_unused db w of
        (Inl e, walls_unused1, db1, w1) \<Rightarrow> (Inl e, db1, w1)
      | (Inr True, walls_unused1, db1, w1) \<Rightarrow> (Inr PNone, db1, w1)
      | (Inr False, walls_unused1, db1, w1) \<Rightarrow>
          (if length walls_unused1 = 0 then
             (case reset_used db1 of
                Inl e \<Rightarrow> (Inl (Builtin e), db1, w1)
              | Inr db2 \<Rightarrow> set_startpage_rounds n startpage_background included included db2 w1)
           else set_startpage_rounds n startpage_background included walls_unused1 db1 w1))"

text \<open>
  The block of \<^verbatim>\<open>set_startpage\<close>. (Iterating \<^verbatim>\<open>db.wallpapers\<close> when it is no dict is not
  followed here.)
\<close>

definition set_startpage_body ::
  "string list \<Rightarrow> path \<Rightarrow> session \<Rightarrow> world \<Rightarrow> (error + pyval) \<times> session \<times> world" where
  "set_startpage_body exclusions startpage_background db w =
     (case get_attr db ''wallpapers'' of
        Inl e \<Rightarrow> (Inl (Builtin e), db, w)
      | Inr (PDict walls) \<Rightarrow>
          (let walls_included = filter (\<lambda>kv. \<not> excluded exclusions (fst kv)) walls in
           if length walls_included = 0 then (Inl StartpageSetError, db, w)
           else
             (case unused_keys walls_included of
                Inl e \<Rightarrow> (Inl (Builtin e), db, w)
              | Inr walls_unused \<Rightarrow>
                  set_startpage_rounds 2 startpage_background (map fst walls_included)
                    walls_unused db w))
      | Inr _ \<Rightarrow> (Inl (Builtin Unmodelled), db, w))"

definition set_startpage ::
  "pylib \<Rightarrow> string list \<Rightarrow> path \<Rightarrow> world \<Rightarrow> (error + pyval) \<times> world" where
  "set_startpage lib exclusions startpage_background w =
     with_db lib ''w'' (set_startpage_body exclusions startpage_background) w"

text \<open>
  \<^verbatim>\<open>set_startpage_wallpaper\<close> of the command line: what it prints, the returned value
  interpolated after the first line. (\<^verbatim>\<open>str\<close> of the values that can stand there.)
\<close>

definition py_str :: "pyval \<Rightarrow> string" where
  "py_str v =
     (case v of
        PNone \<Rightarrow> ''None''
      | PBool b \<Rightarrow> (if b then ''True'' else ''False'')
      | PStr s \<Rightarrow> s
      | PPath p \<Rightarrow> path_str p
      | _ \<Rightarrow> [])"

definition set_startpage_wallpaper ::
  "pylib \<Rightarrow> string list \<Rightarrow> path \<Rightarrow> world \<Rightarrow> (error + string) \<times> world" where
  "set_startpage_wallpaper lib exclusions startpage_background w =
     (case set_startpage lib exclusions startpage_background w of
        (Inl e, w1) \<Rightarrow> (Inl e, w1)
      | (Inr new_wall, w1) \<Rightarrow> (Inr (''Startpage set!'' @ [CHR 0x0A] @ py_str new_wall), w1))"

section \<open>Notions the claims are stated with\<close>

text \<open>
  The tags the decoder has a rule for, and a document that somewhere holds an object
  whose tag (the value of its last \<^verbatim>\<open>_type\<close> member) is a string outside them that names
  no attribute of the class either.
\<close>

definition known_tag :: "string \<Rightarrow> bool" where
  "known_tag t = (t \<in> set [''datetime'', ''PosixPath'', ''Target'', ''Wallpaper''])"

fun has_unknown_tag :: "pylib \<Rightarrow> json \<Rightarrow> bool" where
  "has_unknown_tag lib (JArr js) = list_ex (has_unknown_tag lib) js"
| "has_unknown_tag lib (JObj kjs) =
     (list_ex (has_unknown_tag lib) (map snd kjs)
      \<or> (case map_of (dict_of_items kjs) TYPE_KEY of
            Some (JStr t) \<Rightarrow> \<not> known_tag t \<and> class_attr_call lib t = None
          | _ \<Rightarrow> False))"
| "has_unknown_tag lib j = False"

text \<open>
  Documents for the concrete runs, as the program writes them: a catalog of
  \<^verbatim>\<open>/home/walls\<close> in which \<^verbatim>\<open>wall2.jpg\<close> has been used and \<^verbatim>\<open>gone.png\<close> is no longer on
  disk, and a catalog whose only entry is \<^verbatim>\<open>gone.png\<close>.
\<close>

definition wallpaper_json :: "bool \<Rightarrow> json" where
  "wallpaper_json used =
     JObj [(''startpage_used'', JBool used), (''mobile_suitable'', JBool False),
           (''mobile_used'', JBool False), (''_type'', JStr ''Wallpaper'')]"

definition catalog_json :: "(string \<times> json) list \<Rightarrow> json" where
  "catalog_json walls =
     JObj [(''base_directory'', JObj [(''path'', JStr ''/home/walls''), (''_type'', JStr ''PosixPath'')]),
           (''wallpapers'', JObj walls),
           (''created_at'',
            JObj [(''datetime'', JStr ''1970-01-01T00:00:00''), (''_type'', JStr ''datetime'')])]"

definition doc_sample :: json where
  "doc_sample =
     catalog_json [(''wall1.png'', wallpaper_json False), (''wall2.jpg'', wallpaper_json True),
                   (''gone.png'', wallpaper_json False)]"


text \<open>A catalog of the directory \<^verbatim>\<open>/home/.walls\<close> that stores its image \<^verbatim>\<open>a.png\<close>.\<close>

definition doc_hidden :: json where
  "doc_hidden =
     JObj [(''base_directory'', JObj [(''path'', JStr ''/home/.walls''), (''_type'', JStr ''PosixPath'')]),
           (''wallpapers'', JObj [(''a.png'', wallpaper_json False)]),
           (''created_at'',
            JObj [(''datetime'', JStr ''1970-01-01T00:00:00''), (''_type'', JStr ''datetime'')])]"

definition world_with :: "json \<Rightarrow> world" where
  "world_with doc = world_sample\<lparr>db_file := Some (Document doc)\<rparr>"


text \<open>
  The instance that a session of mode \<^verbatim>\<open>w\<close> holds inside its block after loading
  \<open>doc_sample\<close>.
\<close>

definition session_catalog :: session where
  "session_catalog =
     \<lparr>mode = ''w'', writeback = True,
      attrs =
        [(''base_directory'', PPath [''/'', ''home'', ''walls'']),
         (''wallpapers'',
          PDict [(''wall1.png'', PWallpaper (PBool False) (PBool False) (PBool False)),
                 (''wall2.jpg'', PWallpaper (PBool True) (PBool False) (PBool False)),
                 (''gone.png'', PWallpaper (PBool False) (PBool False) (PBool False))]),
         (''updated_at'', PNone),
         (''created_at'', PDatetime epoch_local),
         (''should_update'', PBool False),
         (''startpage'', PTarget PNone PNone)],
      lock_op = LOCK_EX, locked = True, closed = False, pending = None\<rparr>"

text \<open>The items of the record's wallpaper dict (none when the attribute is no dict).\<close>

definition wallpapers_of :: "session \<Rightarrow> (string \<times> pyval) list" where
  "wallpapers_of db = (case get_attr db ''wallpapers'' of Inr (PDict walls) \<Rightarrow> walls | _ \<Rightarrow> [])"

text \<open>
  The notions of the selection's fairness. An entry is unused when its flag
  \<^verbatim>\<open>startpage_used\<close> is \<^verbatim>\<open>False\<close>. The pool is made of the keys of the record that no exclusion
  matches and whose path below the base directory is a file. \<open>reset_value\<close> is an entry
  with its flag put back to \<^verbatim>\<open>False\<close>. \<open>select_many\<close> is a number
  of consecutive selections on the record, each starting from the record that the one
  before has left (the record is what the file carries from one invocation to the
  next); it gives the path that \<^verbatim>\<open>startpage.current\<close> holds after each of them.
\<close>

definition is_unused :: "pyval \<Rightarrow> bool" where
  "is_unused v = (case v of PWallpaper su ms mu \<Rightarrow> su = PBool False | _ \<Rightarrow> False)"

definition reset_value :: "pyval \<Rightarrow> pyval" where
  "reset_value v = (case v of PWallpaper su ms mu \<Rightarrow> PWallpaper (PBool False) ms mu | _ \<Rightarrow> v)"

definition pool :: "string list \<Rightarrow> world \<Rightarrow> path \<Rightarrow> (string \<times> pyval) list \<Rightarrow> string list" where
  "pool exclusions w base walls =
     filter (\<lambda>k. \<not> excluded exclusions k \<and> is_file w (path_join base k)) (map fst walls)"

definition unused_pool ::
  "string list \<Rightarrow> world \<Rightarrow> path \<Rightarrow> (string \<times> pyval) list \<Rightarrow> string list" where
  "unused_pool exclusions w base walls =
     map fst
       (filter (\<lambda>kv. \<not> excluded exclusions (fst kv) \<and> is_file w (path_join base (fst kv))
                     \<and> is_unused (snd kv)) walls)"

definition startpage_current :: "session \<Rightarrow> pyval" where
  "startpage_current db =
     (case get_attr db ''startpage'' of Inr (PTarget u c) \<Rightarrow> c | _ \<Rightarrow> PNone)"

fun select_many ::
  "nat \<Rightarrow> string list \<Rightarrow> path \<Rightarrow> session \<Rightarrow> world \<Rightarrow> (error + pyval list) \<times> session \<times> world" where
  "select_many 0 exclusions startpage_background db w = (Inr [], db, w)"
| "select_many (Suc n) exclusions startpage_background db w =
     (case set_startpage_body exclusions startpage_background db w of
        (Inl e, db1, w1) \<Rightarrow> (Inl e, db1, w1)
      | (Inr v, db1, w1) \<Rightarrow>
          (case select_many n exclusions startpage_background db1 w1 of
             (Inl e, db2, w2) \<Rightarrow> (Inl e, db2, w2)
           | (Inr cs, db2, w2) \<Rightarrow> (Inr (startpage_current db1 # cs), db2, w2)))"

section \<open>The codec round trip\<close>

lemma split_slash_no_slash: "CHR ''/'' \<notin> set s \<Longrightarrow> split_slash s = [s]"
  by (induction s) auto

lemma split_slash_append:
  "CHR ''/'' \<notin> set s \<Longrightarrow> split_slash (s @ CHR ''/'' # t) = s # split_slash t"
  by (induction s) auto

lemma split_join:
  "segs \<noteq> [] \<Longrightarrow> list_all (\<lambda>s. CHR ''/'' \<notin> set s) segs \<Longrightarrow> split_slash (join_slash segs) = segs"
  by (induction segs rule: join_slash.induct) (auto simp: split_slash_no_slash split_slash_append)

lemma valid_segment_no_slash:
  "list_all valid_segment segs \<Longrightarrow> list_all (\<lambda>s. CHR ''/'' \<notin> set s) segs"
  by (induction segs) (auto simp: valid_segment_def)

lemma filter_keep_valid: "list_all valid_segment segs \<Longrightarrow> filter keep_segment segs = segs"
  by (induction segs) (auto simp: valid_segment_def keep_segment_def)

lemma join_slash_head:
  "list_all valid_segment segs \<Longrightarrow> join_slash segs = c # cs \<Longrightarrow> c \<noteq> CHR ''/''"
  by (cases segs rule: join_slash.cases) (auto simp: valid_segment_def append_eq_Cons_conv)

lemma segments_of_join:
  "list_all valid_segment segs \<Longrightarrow> filter keep_segment (split_slash (join_slash segs)) = segs"
proof (cases segs)
  case Nil
  then show ?thesis by (simp add: keep_segment_def)
next
  case (Cons a list)
  assume v: "list_all valid_segment segs"
  from Cons have "segs \<noteq> []" by simp
  then have "split_slash (join_slash segs) = segs"
    using split_join valid_segment_no_slash [OF v] by blast
  then show ?thesis using filter_keep_valid [OF v] by simp
qed

lemma Path_rooted:
  assumes "list_all valid_segment segs"
  shows "Path (CHR ''/'' # join_slash segs) = ''/'' # segs"
    and "Path (CHR ''/'' # CHR ''/'' # join_slash segs) = ''//'' # segs"
proof -
  have h: "\<And>cs. join_slash segs \<noteq> CHR ''/'' # cs"
    using join_slash_head [OF assms] by blast
  show "Path (CHR ''/'' # join_slash segs) = ''/'' # segs"
    using h segments_of_join [OF assms]
    by (cases "join_slash segs") (auto simp: Path_def keep_segment_def)
  show "Path (CHR ''/'' # CHR ''/'' # join_slash segs) = ''//'' # segs"
    using h segments_of_join [OF assms]
    by (cases "join_slash segs") (auto simp: Path_def keep_segment_def)
qed

lemma Path_relative:
  assumes "list_all valid_segment segs"
  shows "Path (join_slash segs) = segs"
proof -
  have h: "\<And>cs. join_slash segs \<noteq> CHR ''/'' # cs"
    using join_slash_head [OF assms] by blast
  show ?thesis
    using h segments_of_join [OF assms]
    by (cases "join_slash segs") (auto simp: Path_def keep_segment_def)
qed

lemma Path_path_str: "valid_path p \<Longrightarrow> Path (path_str p) = p"
proof (cases p)
  case Nil
  then show ?thesis by (simp add: Path_def keep_segment_def)
next
  case (Cons r segs)
  assume "valid_path p"
  with Cons have v: "is_root r \<or> valid_segment r" and vs: "list_all valid_segment segs"
    by (simp_all add: valid_path_def)
  show ?thesis
  proof (cases "is_root r")
    case True
    then show ?thesis using Cons Path_rooted [OF vs] by (auto simp: is_root_def)
  next
    case False
    with v have "list_all valid_segment (r # segs)" using vs by simp
    from Path_relative [OF this] show ?thesis using Cons False by simp
  qed
qed


lemma dict_set_fresh: "k \<notin> set (map fst d) \<Longrightarrow> dict_set d k v = d @ [(k, v)]"
  by (induction d) auto

lemma foldl_dict_set_distinct:
  "distinct (map fst (acc @ kvs)) \<Longrightarrow> foldl (\<lambda>d (k, v). dict_set d k v) acc kvs = acc @ kvs"
proof (induction kvs arbitrary: acc)
  case Nil
  then show ?case by simp
next
  case (Cons kv kvs)
  obtain k v where kv: "kv = (k, v)" by (cases kv)
  from Cons.prems kv have fresh: "k \<notin> set (map fst acc)" by auto
  from Cons.prems kv have "distinct (map fst ((acc @ [(k, v)]) @ kvs))" by auto
  from Cons.IH [OF this] show ?case using kv fresh by (simp add: dict_set_fresh)
qed

lemma dict_of_items_distinct: "distinct (map fst kvs) \<Longrightarrow> dict_of_items kvs = kvs"
  using foldl_dict_set_distinct [of "[]" kvs] by (simp add: dict_of_items_def)

lemma sequence_sum_chain:
  "\<forall>v \<in> set vs. \<exists>j. f v = Inr j \<and> g j = Inr (h v) \<Longrightarrow>
   \<exists>js. sequence_sum (map f vs) = Inr js \<and> sequence_sum (map g js) = Inr (map h vs)
        \<and> length js = length vs"
proof (induction vs)
  case Nil
  then show ?case by simp
next
  case (Cons v vs)
  then obtain js where js: "sequence_sum (map f vs) = Inr js"
      "sequence_sum (map g js) = Inr (map h vs)" "length js = length vs"
    by auto
  from Cons.prems obtain j where j: "f v = Inr j" "g j = Inr (h v)" by auto
  show ?case using js j by (intro exI [of _ "j # js"]) simp
qed

lemma zip_map_fst_snd_h: "zip (map fst kvs) (map h (map snd kvs)) = map (map_prod id h) kvs"
  by (induction kvs) auto

lemma decode_untagged: "TYPE_KEY \<notin> set (map fst obj) \<Longrightarrow> decode lib obj = Inr (PDict obj)"
  by (simp add: decode_def map_of_eq_None_iff [THEN iffD2])

lemma roundtrip_localized:
  "supported lib x \<Longrightarrow> \<exists>j. dumps lib x = Inr j \<and> loads lib j = Inr (localized lib x)"
proof (induction x)
  case (PList vs)
  then have "\<forall>v \<in> set vs. \<exists>j. dumps lib v = Inr j \<and> loads lib j = Inr (localized lib v)"
    by (auto simp: list_all_iff)
  from sequence_sum_chain [OF this] show ?case by auto
next
  case (PDict kvs)
  then have "\<forall>v \<in> set (map snd kvs). \<exists>j. dumps lib v = Inr j \<and> loads lib j = Inr (localized lib v)"
    by (fastforce simp: list_all_iff)
  from sequence_sum_chain [OF this] obtain js where
    js: "sequence_sum (map (dumps lib) (map snd kvs)) = Inr js"
        "sequence_sum (map (loads lib) js) = Inr (map (localized lib) (map snd kvs))"
        "length js = length (map snd kvs)"
    by blast
  from PDict.prems have d: "distinct (map fst kvs)" and t: "TYPE_KEY \<notin> set (map fst kvs)"
    by simp_all
  let ?obj = "map (map_prod id (localized lib)) kvs"
  have keys: "map fst ?obj = map fst kvs" by simp
  have "dict_of_items ?obj = ?obj" by (rule dict_of_items_distinct) (use d in \<open>simp add: comp_def\<close>)
  moreover have "decode lib ?obj = Inr (PDict ?obj)" by (rule decode_untagged) (use t in \<open>simp add: comp_def\<close>)
  ultimately show ?case using js by (simp add: zip_map_fst_snd_h del: map_map)
next
  case (PDatetime d)
  then show ?case
    by (simp add: decode_def dict_of_items_def TYPE_KEY_def dict_del_def)
next
  case (PPath p)
  then show ?case
    by (simp add: decode_def dict_of_items_def TYPE_KEY_def dict_del_def Path_path_str)
next
  case (PTarget u c)
  then show ?case
    by (auto simp: decode_def dict_of_items_def TYPE_KEY_def dict_del_def getattr_call_def
        Target_def field_or_def)
next
  case (PWallpaper su ms mu)
  then show ?case
    by (auto simp: decode_def dict_of_items_def TYPE_KEY_def dict_del_def getattr_call_def
        Wallpaper_def field_or_def)
qed simp_all

lemma utc_astimezone: "utcoffset d \<noteq> None \<Longrightarrow> utc (astimezone lib d) = utc d"
  by (auto simp: utc_def astimezone_def Let_def)

lemma canon_localized: "all_aware x \<Longrightarrow> canon (localized lib x) = canon x"
proof (induction x)
  case (PList vs)
  then show ?case by (auto simp: list_all_iff)
next
  case (PDict kvs)
  then have "\<And>kv. kv \<in> set kvs \<Longrightarrow> canon (localized lib (snd kv)) = canon (snd kv)"
    by (fastforce simp: list_all_iff)
  then show ?case by (auto simp: map_prod_def split_beta)
next
  case (PDatetime d)
  then show ?case by (simp add: utc_astimezone)
qed simp_all

text \<open>
  C1, as amended. For every supported value, decoding its encoding gives the value with
  every timestamp passed through \<^verbatim>\<open>astimezone()\<close>; when every timestamp of the value is
  timezone-aware, that result is equal to the value (aware timestamps compared as
  instants). Supported means: built from None, booleans, integers, strings, lists,
  mappings without the reserved key, timestamps, paths and the nested records.
\<close>

theorem codec_roundtrip:
  "supported lib x \<Longrightarrow>
     roundtrip lib x = Inr (localized lib x) \<and> (all_aware x \<longrightarrow> py_eq (localized lib x) x)"
  using roundtrip_localized [of lib x] canon_localized [of x lib]
  by (auto simp: roundtrip_def py_eq_def)

theorem codec_roundtrip_witness:
  "supported lib_sample
     (PDict [(''base_directory'', PPath [''/'', ''home'', ''walls'']),
             (''wallpapers'', PDict [(''a.png'', PWallpaper (PBool False) (PBool False) (PBool True))]),
             (''updated_at'', PDatetime epoch_utc),
             (''should_update'', PBool False),
             (''startpage'', PTarget PNone (PPath [''/'', ''home'', ''walls'', ''a.png''])),
             (''count'', PInt 3), (''note'', PStr ''x'')])
   \<and> all_aware
     (PDict [(''base_directory'', PPath [''/'', ''home'', ''walls'']),
             (''wallpapers'', PDict [(''a.png'', PWallpaper (PBool False) (PBool False) (PBool True))]),
             (''updated_at'', PDatetime epoch_utc),
             (''should_update'', PBool False),
             (''startpage'', PTarget PNone (PPath [''/'', ''home'', ''walls'', ''a.png''])),
             (''count'', PInt 3), (''note'', PStr ''x'')])
   \<and> roundtrip lib_sample
     (PDict [(''base_directory'', PPath [''/'', ''home'', ''walls'']),
             (''wallpapers'', PDict [(''a.png'', PWallpaper (PBool False) (PBool False) (PBool True))]),
             (''updated_at'', PDatetime epoch_utc),
             (''should_update'', PBool False),
             (''startpage'', PTarget PNone (PPath [''/'', ''home'', ''walls'', ''a.png''])),
             (''count'', PInt 3), (''note'', PStr ''x'')])
     = Inr
     (PDict [(''base_directory'', PPath [''/'', ''home'', ''walls'']),
             (''wallpapers'', PDict [(''a.png'', PWallpaper (PBool False) (PBool False) (PBool True))]),
             (''updated_at'', PDatetime \<lparr>wall = 3600000000, utcoffset = Some 3600000000\<rparr>),
             (''should_update'', PBool False),
             (''startpage'', PTarget PNone (PPath [''/'', ''home'', ''walls'', ''a.png''])),
             (''count'', PInt 3), (''note'', PStr ''x'')])
   \<and> py_eq
     (PDict [(''base_directory'', PPath [''/'', ''home'', ''walls'']),
             (''wallpapers'', PDict [(''a.png'', PWallpaper (PBool False) (PBool False) (PBool True))]),
             (''updated_at'', PDatetime \<lparr>wall = 3600000000, utcoffset = Some 3600000000\<rparr>),
             (''should_update'', PBool False),
             (''startpage'', PTarget PNone (PPath [''/'', ''home'', ''walls'', ''a.png''])),
             (''count'', PInt 3), (''note'', PStr ''x'')])
     (PDict [(''base_directory'', PPath [''/'', ''home'', ''walls'']),
             (''wallpapers'', PDict [(''a.png'', PWallpaper (PBool False) (PBool False) (PBool True))]),
             (''updated_at'', PDatetime epoch_utc),
             (''should_update'', PBool False),
             (''startpage'', PTarget PNone (PPath [''/'', ''home'', ''walls'', ''a.png''])),
             (''count'', PInt 3), (''note'', PStr ''x'')])"
  using codec_roundtrip [of lib_sample
     "PDict [(''base_directory'', PPath [''/'', ''home'', ''walls'']),
             (''wallpapers'', PDict [(''a.png'', PWallpaper (PBool False) (PBool False) (PBool True))]),
             (''updated_at'', PDatetime epoch_utc),
             (''should_update'', PBool False),
             (''startpage'', PTarget PNone (PPath [''/'', ''home'', ''walls'', ''a.png''])),
             (''count'', PInt 3), (''note'', PStr ''x'')]"]
  by (simp add: lib_sample_def iso_table_def epoch_utc_def epoch_naive_def epoch_local_def
      TYPE_KEY_def valid_path_def valid_segment_def is_root_def astimezone_def)

text \<open>
  C1 as stated fails twice. A naive timestamp (what \<^verbatim>\<open>datetime.now()\<close> gives, and so what
  \<^verbatim>\<open>create\<close> and \<^verbatim>\<open>refresh\<close> store) comes back timezone-aware, and Python holds a naive and
  an aware datetime unequal. A mapping that uses the reserved key is taken for a tagged
  object: here it comes back as a path.
\<close>

theorem codec_roundtrip_counterexample:
  "roundtrip lib_sample (PDatetime epoch_naive)
     = Inr (PDatetime \<lparr>wall = 0, utcoffset = Some 3600000000\<rparr>)
   \<and> \<not> py_eq (PDatetime \<lparr>wall = 0, utcoffset = Some 3600000000\<rparr>) (PDatetime epoch_naive)
   \<and> roundtrip lib_sample (PDict [(''_type'', PStr ''PosixPath''), (''path'', PStr ''a.png'')])
     = Inr (PPath [''a.png''])
   \<and> \<not> py_eq (PPath [''a.png'']) (PDict [(''_type'', PStr ''PosixPath''), (''path'', PStr ''a.png'')])"
  by (simp add: roundtrip_def lib_sample_def iso_table_def epoch_naive_def epoch_utc_def
      epoch_local_def decode_def
      dict_of_items_def dict_del_def TYPE_KEY_def astimezone_def py_eq_def utc_def Path_def
      keep_segment_def)

section \<open>Unknown type tags\<close>

lemma sequence_sum_fails:
  "x \<in> set xs \<Longrightarrow> f x = Inl e \<Longrightarrow> \<exists>e'. sequence_sum (map f xs) = Inl e'"
  by (induction xs) (fastforce split: sum.splits)+

lemma sequence_sum_all2:
  "sequence_sum (map f xs) = Inr vs \<Longrightarrow> list_all2 (\<lambda>x v. f x = Inr v) xs vs"
  by (induction xs arbitrary: vs) (auto split: sum.splits)

lemma dict_set_all2:
  "list_all2 (rel_prod (=) R) a b \<Longrightarrow> R x y \<Longrightarrow>
   list_all2 (rel_prod (=) R) (dict_set a k x) (dict_set b k y)"
  by (induction a b rule: list_all2_induct) auto

lemma foldl_dict_set_all2:
  "list_all2 (rel_prod (=) R) xs ys \<Longrightarrow> list_all2 (rel_prod (=) R) a b \<Longrightarrow>
   list_all2 (rel_prod (=) R)
     (foldl (\<lambda>d (k, v). dict_set d k v) a xs) (foldl (\<lambda>d (k, v). dict_set d k v) b ys)"
proof (induction xs ys arbitrary: a b rule: list_all2_induct)
  case Nil
  then show ?case by simp
next
  case (Cons x xs y ys)
  obtain k v where x: "x = (k, v)" by (cases x)
  obtain k' v' where y: "y = (k', v')" by (cases y)
  from Cons.hyps(1) x y have kk: "k' = k" and r: "R v v'" by simp_all
  have "list_all2 (rel_prod (=) R) (dict_set a k v) (dict_set b k v')"
    using Cons.prems r by (rule dict_set_all2)
  from Cons.IH [OF this] show ?case using x y kk by simp
qed

lemma dict_of_items_all2:
  "list_all2 (rel_prod (=) R) xs ys \<Longrightarrow>
   list_all2 (rel_prod (=) R) (dict_of_items xs) (dict_of_items ys)"
  unfolding dict_of_items_def by (rule foldl_dict_set_all2) simp_all

lemma map_of_all2:
  "list_all2 (rel_prod (=) R) a b \<Longrightarrow> rel_option R (map_of a k) (map_of b k)"
  by (induction a b rule: list_all2_induct) auto

lemma members_all2:
  "list_all2 (\<lambda>x v. f x = Inr v) (map snd kjs) vs \<Longrightarrow>
   list_all2 (rel_prod (=) (\<lambda>x v. f x = Inr v)) kjs (zip (map fst kjs) vs)"
  by (induction kjs arbitrary: vs) (auto simp: list_all2_Cons1)

lemma decode_unknown_tag:
  "map_of obj TYPE_KEY = Some (PStr t) \<Longrightarrow> \<not> known_tag t \<Longrightarrow> class_attr_call lib t = None \<Longrightarrow>
   decode lib obj = Inl AttributeError"
  by (simp add: decode_def known_tag_def getattr_call_def)

lemma loads_unknown_tag_fails: "has_unknown_tag lib j \<Longrightarrow> \<exists>e. loads lib j = Inl e"
proof (induction j)
  case (JArr js)
  then obtain x e where "x \<in> set js" "loads lib x = Inl e"
    by (auto simp: list_ex_iff) blast
  from sequence_sum_fails [of x js "loads lib" e, OF this] show ?case by auto
next
  case (JObj kjs)
  show ?case
  proof (cases "sequence_sum (map (loads lib) (map snd kjs))")
    case (Inl e)
    then show ?thesis by simp
  next
    case (Inr vs)
    have no_member: "\<not> list_ex (has_unknown_tag lib) (map snd kjs)"
    proof
      assume "list_ex (has_unknown_tag lib) (map snd kjs)"
      then obtain k' j' where kj: "(k', j') \<in> set kjs" "has_unknown_tag lib j'"
        by (auto simp: list_ex_iff)
      have "\<exists>e. loads lib j' = Inl e" by (rule JObj.IH [OF kj(1) _ kj(2)]) simp
      then obtain e where e: "loads lib j' = Inl e" ..
      have "j' \<in> set (map snd kjs)" using kj(1) by force
      from sequence_sum_fails [of j' "map snd kjs" "loads lib" e, OF this e] Inr
      show False by auto
    qed
    with JObj.prems obtain t where
      t: "map_of (dict_of_items kjs) TYPE_KEY = Some (JStr t)"
         "\<not> known_tag t" "class_attr_call lib t = None"
      by (auto split: option.splits json.splits)
    let ?obj = "dict_of_items (zip (map fst kjs) vs)"
    have "list_all2 (rel_prod (=) (\<lambda>x v. loads lib x = Inr v)) (dict_of_items kjs) ?obj"
      using Inr by (intro dict_of_items_all2 members_all2 sequence_sum_all2)
    from map_of_all2 [OF this, of TYPE_KEY] t(1)
    have "map_of ?obj TYPE_KEY = Some (PStr t)"
      by (auto simp: option_rel_Some1)
    from decode_unknown_tag [OF this t(2,3)] show ?thesis using Inr by simp
  qed
qed simp_all

lemma open_db_document:
  "m = ''r'' \<or> m = ''w'' \<Longrightarrow> db_file w = Some (Document j) \<Longrightarrow> \<not> open_fails w \<Longrightarrow>
   \<not> lock_fails w \<Longrightarrow>
   fst (open_db lib m w) =
     (case loads lib j of
        Inl e \<Rightarrow> Inl (Builtin e)
      | Inr db_dict \<Rightarrow>
          (case dataclass_init db_dict of
             Inl e \<Rightarrow> Inl (Builtin e)
           | Inr a \<Rightarrow> Inr \<lparr>mode = m, writeback = False, attrs = a,
                          lock_op = (if m = ''r'' then LOCK_SH else LOCK_EX),
                          locked = True, closed = False, pending = None\<rparr>))"
  by (auto simp: open_db_def json_load_def file_mode_def fopen_def log_def Let_def
      split: sum.splits)

text \<open>
  C2, as amended. The hook fails with \<^verbatim>\<open>AttributeError\<close> on an object whose tag is a string
  that is none of datetime, PosixPath, Target, Wallpaper and names no attribute of the
  class. Loading a document that holds such an object fails, and a session opened on it
  in a reading mode fails with that same built-in exception: \<^verbatim>\<open>_open\<close> turns only
  malformed JSON text into \<^verbatim>\<open>DatabaseDecodeError\<close>.
\<close>

theorem unknown_tag_error:
  "(map_of obj TYPE_KEY = Some (PStr t) \<and> \<not> known_tag t \<and> class_attr_call lib t = None
      \<longrightarrow> decode lib obj = Inl AttributeError)
   \<and> (has_unknown_tag lib j \<and> (m = ''r'' \<or> m = ''w'') \<and> db_file w = Some (Document j)
        \<and> \<not> open_fails w \<and> \<not> lock_fails w
      \<longrightarrow> (\<exists>e. loads lib j = Inl e \<and> fst (open_db lib m w) = Inl (Builtin e)))"
proof (intro conjI impI)
  assume "map_of obj TYPE_KEY = Some (PStr t) \<and> \<not> known_tag t \<and> class_attr_call lib t = None"
  then show "decode lib obj = Inl AttributeError" by (simp add: decode_unknown_tag)
next
  assume a: "has_unknown_tag lib j \<and> (m = ''r'' \<or> m = ''w'') \<and> db_file w = Some (Document j)
        \<and> \<not> open_fails w \<and> \<not> lock_fails w"
  then obtain e where e: "loads lib j = Inl e" using loads_unknown_tag_fails by blast
  from a have "fst (open_db lib m w) = Inl (Builtin e)"
    using open_db_document [of m w j lib] e by simp
  with e show "\<exists>e. loads lib j = Inl e \<and> fst (open_db lib m w) = Inl (Builtin e)" by blast
qed

theorem unknown_tag_error_witness:
  "map_of [(''x'', PInt 1), (''_type'', PStr ''Foo'')] TYPE_KEY = Some (PStr ''Foo'')
   \<and> \<not> known_tag ''Foo'' \<and> class_attr_call lib_sample ''Foo'' = None
   \<and> decode lib_sample [(''x'', PInt 1), (''_type'', PStr ''Foo'')] = Inl AttributeError
   \<and> has_unknown_tag lib_sample
       (JObj [(''wallpapers'', JObj [(''a.png'', JObj [(''_type'', JStr ''Foo'')])])])
   \<and> db_file (world_sample\<lparr>db_file := Some (Document
       (JObj [(''wallpapers'', JObj [(''a.png'', JObj [(''_type'', JStr ''Foo'')])])]))\<rparr>)
       = Some (Document
       (JObj [(''wallpapers'', JObj [(''a.png'', JObj [(''_type'', JStr ''Foo'')])])]))
   \<and> \<not> open_fails world_sample \<and> \<not> lock_fails world_sample
   \<and> (\<exists>e. loads lib_sample
            (JObj [(''wallpapers'', JObj [(''a.png'', JObj [(''_type'', JStr ''Foo'')])])]) = Inl e
          \<and> fst (open_db lib_sample ''w'' (world_sample\<lparr>db_file := Some (Document
       (JObj [(''wallpapers'', JObj [(''a.png'', JObj [(''_type'', JStr ''Foo'')])])]))\<rparr>))
            = Inl (Builtin e))"
  using unknown_tag_error [of "[(''x'', PInt 1), (''_type'', PStr ''Foo'')]" "''Foo''" lib_sample
      "JObj [(''wallpapers'', JObj [(''a.png'', JObj [(''_type'', JStr ''Foo'')])])]" "''w''"
      "world_sample\<lparr>db_file := Some (Document
       (JObj [(''wallpapers'', JObj [(''a.png'', JObj [(''_type'', JStr ''Foo'')])])]))\<rparr>"]
  by (simp add: TYPE_KEY_def known_tag_def lib_sample_def world_sample_def dict_of_items_def)

text \<open>
  C2 as stated fails: opening a session on the document \<^verbatim>\<open>{"_type": "Foo"}\<close> fails with
  the \<^verbatim>\<open>AttributeError\<close> of \<^verbatim>\<open>getattr\<close>, which is no \<^verbatim>\<open>DatabaseDecodeError\<close>.
\<close>

theorem unknown_tag_counterexample:
  "loads lib_sample (JObj [(''_type'', JStr ''Foo'')]) = Inl AttributeError
   \<and> fst (open_db lib_sample ''r''
            (world_sample\<lparr>db_file := Some (Document (JObj [(''_type'', JStr ''Foo'')]))\<rparr>))
       = Inl (Builtin AttributeError)
   \<and> fst (open_db lib_sample ''r''
            (world_sample\<lparr>db_file := Some (Document (JObj [(''_type'', JStr ''Foo'')]))\<rparr>))
       \<noteq> Inl DatabaseDecodeError"
  by (simp add: open_db_def json_load_def file_mode_def fopen_def log_def world_sample_def
      lib_sample_def decode_def dict_of_items_def dict_del_def TYPE_KEY_def getattr_call_def)

section \<open>Opening and leaving a session\<close>

lemma open_db_success:
  "open_db lib m w = (Inr s, w') \<Longrightarrow>
   \<exists>fm. file_mode m = Some fm
      \<and> lock_op s = (if m = ''r'' then LOCK_SH else LOCK_EX) \<and> locked s \<and> \<not> closed s
      \<and> mode s = m \<and> \<not> writeback s
      \<and> trace w' = trace w @ [Opened fm, Flocked (lock_op s)]"
  by (auto simp: open_db_def fopen_def log_def Let_def
      split: option.splits sum.splits if_splits oserror.splits)

text \<open>
  C8, as amended. Opening a session fails with \<^verbatim>\<open>DatabaseModeError\<close> for a mode string other
  than the four; with \<^verbatim>\<open>DatabaseExistsError\<close> when mode \<^verbatim>\<open>c\<close> finds the file; with
  \<^verbatim>\<open>DatabaseReadError\<close> on another failure to open it (the call fails, or mode \<^verbatim>\<open>r\<close> or \<^verbatim>\<open>w\<close>
  finds no file); with \<^verbatim>\<open>DatabaseLockError\<close> when the file opens and the lock cannot be
  taken. In the modes \<^verbatim>\<open>r\<close> and \<^verbatim>\<open>w\<close>, which read the file: text that is no JSON document
  gives \<^verbatim>\<open>DatabaseDecodeError\<close> when the hook accepts every value that the text completes
  before the parser's error; an exception of the hook on one of them is passed on as it
  is, and so are the \<^verbatim>\<open>UnicodeDecodeError\<close> of a file that is no UTF-8 text and the \<^verbatim>\<open>OSError\<close>
  of a failing read. A session that opens holds the lock it asked for: shared in mode
  \<^verbatim>\<open>r\<close>, exclusive in every other.
\<close>

theorem open_db_errors:
  "(m \<notin> {''r'', ''w'', ''c'', ''n''} \<longrightarrow> fst (open_db lib m w) = Inl DatabaseModeError)
   \<and> (m = ''c'' \<and> \<not> open_fails w \<and> db_file w \<noteq> None
        \<longrightarrow> fst (open_db lib m w) = Inl DatabaseExistsError)
   \<and> (m \<in> {''r'', ''w'', ''c'', ''n''}
        \<and> (open_fails w \<or> ((m = ''r'' \<or> m = ''w'') \<and> db_file w = None))
        \<longrightarrow> fst (open_db lib m w) = Inl DatabaseReadError)
   \<and> (m \<in> {''r'', ''w'', ''c'', ''n''} \<and> \<not> open_fails w
        \<and> (m = ''c'' \<longrightarrow> db_file w = None) \<and> (m = ''r'' \<or> m = ''w'' \<longrightarrow> db_file w \<noteq> None)
        \<and> lock_fails w
        \<longrightarrow> fst (open_db lib m w) = Inl DatabaseLockError)
   \<and> ((m = ''r'' \<or> m = ''w'') \<and> \<not> open_fails w \<and> \<not> lock_fails w
        \<and> db_file w = Some (Malformed js) \<and> sequence_sum (map (loads lib) js) = Inr vs
        \<longrightarrow> fst (open_db lib m w) = Inl DatabaseDecodeError)
   \<and> ((m = ''r'' \<or> m = ''w'') \<and> \<not> open_fails w \<and> \<not> lock_fails w
        \<and> db_file w = Some (Malformed js) \<and> sequence_sum (map (loads lib) js) = Inl e
        \<longrightarrow> fst (open_db lib m w) = Inl (Builtin e))
   \<and> ((m = ''r'' \<or> m = ''w'') \<and> \<not> open_fails w \<and> \<not> lock_fails w
        \<and> db_file w = Some Undecodable
        \<longrightarrow> fst (open_db lib m w) = Inl (Builtin UnicodeDecodeError))
   \<and> ((m = ''r'' \<or> m = ''w'') \<and> \<not> open_fails w \<and> \<not> lock_fails w
        \<and> db_file w = Some Unreadable
        \<longrightarrow> fst (open_db lib m w) = Inl (Builtin OSError))
   \<and> (\<forall>s w'. open_db lib m w = (Inr s, w')
        \<longrightarrow> locked s \<and> lock_op s = (if m = ''r'' then LOCK_SH else LOCK_EX)
            \<and> last (trace w') = Flocked (lock_op s))"
proof (intro conjI impI allI)
  assume "m \<notin> {''r'', ''w'', ''c'', ''n''}"
  then show "fst (open_db lib m w) = Inl DatabaseModeError"
    by (simp add: open_db_def file_mode_def)
next
  assume "m = ''c'' \<and> \<not> open_fails w \<and> db_file w \<noteq> None"
  then show "fst (open_db lib m w) = Inl DatabaseExistsError"
    by (auto simp: open_db_def file_mode_def fopen_def)
next
  assume "m \<in> {''r'', ''w'', ''c'', ''n''}
        \<and> (open_fails w \<or> ((m = ''r'' \<or> m = ''w'') \<and> db_file w = None))"
  then show "fst (open_db lib m w) = Inl DatabaseReadError"
    by (auto simp: open_db_def file_mode_def fopen_def)
next
  assume "m \<in> {''r'', ''w'', ''c'', ''n''} \<and> \<not> open_fails w
        \<and> (m = ''c'' \<longrightarrow> db_file w = None) \<and> (m = ''r'' \<or> m = ''w'' \<longrightarrow> db_file w \<noteq> None)
        \<and> lock_fails w"
  then show "fst (open_db lib m w) = Inl DatabaseLockError"
    by (auto simp: open_db_def file_mode_def fopen_def log_def)
next
  assume "(m = ''r'' \<or> m = ''w'') \<and> \<not> open_fails w \<and> \<not> lock_fails w
        \<and> db_file w = Some (Malformed js) \<and> sequence_sum (map (loads lib) js) = Inr vs"
  then show "fst (open_db lib m w) = Inl DatabaseDecodeError"
    by (auto simp: open_db_def json_load_def file_mode_def fopen_def log_def)
next
  assume "(m = ''r'' \<or> m = ''w'') \<and> \<not> open_fails w \<and> \<not> lock_fails w
        \<and> db_file w = Some (Malformed js) \<and> sequence_sum (map (loads lib) js) = Inl e"
  then show "fst (open_db lib m w) = Inl (Builtin e)"
    by (auto simp: open_db_def json_load_def file_mode_def fopen_def log_def)
next
  assume "(m = ''r'' \<or> m = ''w'') \<and> \<not> open_fails w \<and> \<not> lock_fails w
        \<and> db_file w = Some Undecodable"
  then show "fst (open_db lib m w) = Inl (Builtin UnicodeDecodeError)"
    by (auto simp: open_db_def json_load_def file_mode_def fopen_def log_def)
next
  assume "(m = ''r'' \<or> m = ''w'') \<and> \<not> open_fails w \<and> \<not> lock_fails w
        \<and> db_file w = Some Unreadable"
  then show "fst (open_db lib m w) = Inl (Builtin OSError)"
    by (auto simp: open_db_def json_load_def file_mode_def fopen_def log_def)
next
  fix s w'
  assume "open_db lib m w = (Inr s, w')"
  from open_db_success [OF this]
  have *: "locked s \<and> lock_op s = (if m = ''r'' then LOCK_SH else LOCK_EX)
            \<and> last (trace w') = Flocked (lock_op s)"
    by auto
  from * show "locked s" by simp
  from * show "lock_op s = (if m = ''r'' then LOCK_SH else LOCK_EX)" by simp
  from * show "last (trace w') = Flocked (lock_op s)" by simp
qed

theorem open_db_errors_witness:
  "fst (open_db lib_sample ''q'' world_sample) = Inl DatabaseModeError
   \<and> fst (open_db lib_sample ''c'' (world_sample\<lparr>db_file := Some (Malformed [])\<rparr>))
       = Inl DatabaseExistsError
   \<and> fst (open_db lib_sample ''r'' world_sample) = Inl DatabaseReadError
   \<and> fst (open_db lib_sample ''n'' (world_sample\<lparr>lock_fails := True\<rparr>)) = Inl DatabaseLockError
   \<and> fst (open_db lib_sample ''w'' (world_sample\<lparr>db_file := Some (Malformed [])\<rparr>))
       = Inl DatabaseDecodeError
   \<and> fst (open_db lib_sample ''w''
            (world_sample\<lparr>db_file := Some (Malformed [JObj [(''datetime'', JStr ''x''),
                                                            (''_type'', JStr ''datetime'')]])\<rparr>))
       = Inl (Builtin ValueError)
   \<and> fst (open_db lib_sample ''r'' (world_sample\<lparr>db_file := Some Undecodable\<rparr>))
       = Inl (Builtin UnicodeDecodeError)
   \<and> fst (open_db lib_sample ''r'' (world_sample\<lparr>db_file := Some Unreadable\<rparr>))
       = Inl (Builtin OSError)
   \<and> (\<exists>s w'. open_db lib_sample ''r'' (world_sample\<lparr>db_file := Some (Document (JObj []))\<rparr>)
                = (Inr s, w')
         \<and> locked s \<and> lock_op s = LOCK_SH \<and> last (trace w') = Flocked LOCK_SH)
   \<and> (\<exists>s w'. open_db lib_sample ''n'' world_sample = (Inr s, w')
         \<and> locked s \<and> lock_op s = LOCK_EX \<and> last (trace w') = Flocked LOCK_EX)"
  using open_db_errors [of "''q''" lib_sample world_sample]
    open_db_errors [of "''c''" lib_sample "world_sample\<lparr>db_file := Some (Malformed [])\<rparr>"]
    open_db_errors [of "''r''" lib_sample world_sample]
    open_db_errors [of "''n''" lib_sample "world_sample\<lparr>lock_fails := True\<rparr>"]
    open_db_errors [of "''w''" lib_sample "world_sample\<lparr>db_file := Some (Malformed [])\<rparr>" "[]" "[]"]
    open_db_errors [of "''w''" lib_sample
      "world_sample\<lparr>db_file := Some (Malformed [JObj [(''datetime'', JStr ''x''),
                                                      (''_type'', JStr ''datetime'')]])\<rparr>"
      "[JObj [(''datetime'', JStr ''x''), (''_type'', JStr ''datetime'')]]" _ ValueError]
    open_db_errors [of "''r''" lib_sample "world_sample\<lparr>db_file := Some Undecodable\<rparr>"]
    open_db_errors [of "''r''" lib_sample "world_sample\<lparr>db_file := Some Unreadable\<rparr>"]
    open_db_errors [of "''r''" lib_sample "world_sample\<lparr>db_file := Some (Document (JObj []))\<rparr>"]
    open_db_errors [of "''n''" lib_sample world_sample]
  by (simp add: open_db_def json_load_def file_mode_def fopen_def log_def world_sample_def
      decode_def dict_of_items_def dict_del_def TYPE_KEY_def dataclass_init_def
      data_fields_def field_or_def lib_sample_def iso_table_def)

text \<open>
  C8 as stated fails on a text that is no JSON document: the file holding
  \<^verbatim>\<open>[{"_type": "Foo"}\<close> completes the object before the parser misses the closing bracket,
  the hook is called on it, and opening the session fails with the \<^verbatim>\<open>AttributeError\<close> of
  \<^verbatim>\<open>getattr\<close>, which is no \<^verbatim>\<open>DatabaseDecodeError\<close>.
\<close>

theorem open_db_errors_counterexample:
  "fst (open_db lib_sample ''r''
          (world_sample\<lparr>db_file := Some (Malformed [JObj [(''_type'', JStr ''Foo'')]])\<rparr>))
     = Inl (Builtin AttributeError)
   \<and> fst (open_db lib_sample ''r''
          (world_sample\<lparr>db_file := Some (Malformed [JObj [(''_type'', JStr ''Foo'')]])\<rparr>))
     \<noteq> Inl DatabaseDecodeError"
  by code_simp




lemma save_session:
  "save lib s w = (r, s1, w1) \<Longrightarrow> locked s1 = locked s \<and> closed s1 = closed s"
  by (auto simp: save_def Let_def split: if_splits sum.splits option.splits)

lemma exit_db_failing_save:
  "writeback s \<Longrightarrow> save lib s w = (Some e, s1, w1) \<Longrightarrow>
   exit_db lib s True w = (Some e, s1, w1) \<and> locked s1 = locked s \<and> closed s1 = closed s"
  using save_session [of lib s w "Some e" s1 w1] by (simp add: exit_db_def)

lemma close_failing_flush:
  "locked s \<Longrightarrow> \<not> closed s \<Longrightarrow> pending s = Some j \<Longrightarrow> flush_fails w \<Longrightarrow>
   close s w =
     (Some (Builtin OSError), s\<lparr>locked := unlock_fails w, closed := True, pending := None\<rparr>,
      w\<lparr>trace := trace w
           @ [if unlock_fails w then Warned ''Failed to release lock on database'' else Unlocked,
              Closed]\<rparr>)"
  by (simp add: close_def log_def)




section \<open>The wallpaper list\<close>

text \<open>
  C5 fails on the code. The base directory \<^verbatim>\<open>/home/.walls\<close> holds the image \<^verbatim>\<open>a.png\<close>; its
  path relative to the base directory has no hidden segment and its suffix is \<^verbatim>\<open>.png\<close>.
  The walk finds it, but \<^verbatim>\<open>_list_wallpapers\<close> tests every part of the path the walk
  yields, the base directory's own \<^verbatim>\<open>.walls\<close> included, and lists nothing; \<^verbatim>\<open>create\<close> writes
  a catalog of no entries. Under \<^verbatim>\<open>/home/walls\<close> the same code lists the three images
  that are not below a hidden directory.
\<close>

theorem list_wallpapers_hidden_base:
  "rglob world_sample [''/'', ''home'', ''.walls''] = [[''/'', ''home'', ''.walls'', ''a.png'']]
   \<and> list_ex hidden_part [''a.png''] = False
   \<and> suffix [''/'', ''home'', ''.walls'', ''a.png''] = ''.png''
   \<and> list_wallpapers world_sample [''/'', ''home'', ''.walls''] = []
   \<and> fst (create lib_sample [''/'', ''home'', ''.walls''] False world_sample)
       = Inr (PPath [''/'', ''home'', ''.walls''], 0, PDatetime epoch_naive, PNone, PBool False)
   \<and> list_wallpapers world_sample [''/'', ''home'', ''walls'']
       = [''wall1.png'', ''wall2.jpg'', ''nature/lake.gif'']"
  by code_simp

section \<open>refresh\<close>

lemma map_of_dict_set: "map_of (dict_set d k v) k' = (if k' = k then Some v else map_of d k')"
  by (induction d) auto

lemma map_fst_dict_set:
  "map fst (dict_set d k v) = (if k \<in> set (map fst d) then map fst d else map fst d @ [k])"
  by (induction d) force+

lemma keys_dict_set: "set (map fst (dict_set d k v)) = insert k (set (map fst d))"
  by (auto simp: map_fst_dict_set simp del: set_map)

lemma distinct_dict_set: "distinct (map fst d) \<Longrightarrow> distinct (map fst (dict_set d k v))"
  by (simp add: map_fst_dict_set del: set_map)

lemma map_of_dict_del: "map_of (dict_del d k) k' = (if k' = k then None else map_of d k')"
  by (induction d) (auto simp: dict_del_def)

lemma keys_dict_del: "set (map fst (dict_del d k)) = set (map fst d) - {k}"
  by (auto simp: dict_del_def)

lemma distinct_dict_del: "distinct (map fst d) \<Longrightarrow> distinct (map fst (dict_del d k))"
  by (simp add: dict_del_def distinct_map_filter)

lemma insert_all:
  "map_of (foldl (\<lambda>d k. dict_set d k v) d ks) k' = (if k' \<in> set ks then Some v else map_of d k')"
  "set (map fst (foldl (\<lambda>d k. dict_set d k v) d ks)) = set (map fst d) \<union> set ks"
  "distinct (map fst d) \<Longrightarrow> distinct (map fst (foldl (\<lambda>d k. dict_set d k v) d ks))"
  by (induction ks arbitrary: d)
    (auto simp: map_of_dict_set keys_dict_set distinct_dict_set simp del: set_map)

lemma delete_all:
  "map_of (foldl dict_del d ks) k' = (if k' \<in> set ks then None else map_of d k')"
  "set (map fst (foldl dict_del d ks)) = set (map fst d) - set ks"
  "distinct (map fst d) \<Longrightarrow> distinct (map fst (foldl dict_del d ks))"
  by (induction ks arbitrary: d)
    (auto simp: map_of_dict_del keys_dict_del distinct_dict_del simp del: set_map)

lemma get_attr_set_attr:
  "get_attr (set_attr db k v) k' = (if k' = k then Inr v else get_attr db k')"
  by (simp add: get_attr_def set_attr_def map_of_dict_set)

lemma length_filter_remdups: "length (filter P (remdups xs)) = card {x \<in> set xs. P x}"
proof -
  have "distinct (filter P (remdups xs))" by simp
  from distinct_card [OF this] show ?thesis by simp
qed

lemma length_filter_distinct: "distinct xs \<Longrightarrow> length (filter P xs) = card {x \<in> set xs. P x}"
  using length_filter_remdups [of P xs] by (simp add: distinct_remdups_id)

text \<open>
  The block of \<^verbatim>\<open>refresh\<close> in terms of the list that \<^verbatim>\<open>_list_wallpapers\<close> gives. For a record
  whose base directory is a path and whose wallpapers are a dict, and any directory
  tree, the block of \<^verbatim>\<open>refresh\<close> returns the pair (number of listed files that
  are not stored, number of stored keys that are not listed); afterwards the keys of
  the wallpaper dict are exactly the listed files, every key that was stored and is
  still listed keeps its entry, every new key has the default entry, \<^verbatim>\<open>updated_at\<close> is now
  and no other attribute has changed; when the listed files are the stored keys the
  pair is (0, 0). The listed files are what \<^verbatim>\<open>_list_wallpapers\<close> gives for the stored base
  directory.
\<close>

lemma refresh_body_spec:
  assumes "get_attr db ''base_directory'' = Inr (PPath directory)"
      and "get_attr db ''wallpapers'' = Inr (PDict walls)"
      and "distinct (map fst walls)"
  shows "(let disk = set (list_wallpapers w directory);
              stored = set (map fst walls);
              db' = fst (snd (refresh_body db w));
              walls' = wallpapers_of db'
          in refresh_body db w = (Inr (card (disk - stored), card (stored - disk)), db', w)
             \<and> get_attr db' ''wallpapers'' = Inr (PDict walls')
             \<and> distinct (map fst walls')
             \<and> set (map fst walls') = disk
             \<and> (\<forall>k \<in> disk. map_of walls' k = (if k \<in> stored then map_of walls k
                                                  else Some default_wallpaper))
             \<and> get_attr db' ''updated_at'' = Inr (now w)
             \<and> (\<forall>k. k \<noteq> ''wallpapers'' \<and> k \<noteq> ''updated_at'' \<longrightarrow> get_attr db' k = get_attr db k)
             \<and> (disk = stored \<longrightarrow> fst (refresh_body db w) = Inr (0, 0)))"
proof -
  let ?disk = "remdups (list_wallpapers w directory)"
  let ?stored = "map fst walls"
  let ?deleted = "filter (\<lambda>k. k \<notin> set ?disk) ?stored"
  let ?new = "filter (\<lambda>k. k \<notin> set ?stored) ?disk"
  let ?walls1 = "foldl (\<lambda>d k. dict_set d k default_wallpaper) walls ?new"
  let ?walls2 = "foldl dict_del ?walls1 ?deleted"
  let ?db' = "set_attr (set_attr db ''wallpapers'' (PDict ?walls2)) ''updated_at'' (now w)"
  have n_new: "length ?new = card (set (list_wallpapers w directory) - set ?stored)"
    by (simp add: length_filter_remdups set_diff_eq)
  have n_del: "length ?deleted = card (set ?stored - set (list_wallpapers w directory))"
    using length_filter_distinct [OF assms(3), of "\<lambda>k. k \<notin> set (list_wallpapers w directory)"]
    by (simp add: set_diff_eq)
  have body: "refresh_body db w = (Inr (length ?new, length ?deleted), ?db', w)"
    using assms(1,2) by (simp add: refresh_body_def Let_def)
  have db': "fst (snd (refresh_body db w)) = ?db'"
    by (simp only: body fst_conv snd_conv)
  have g: "get_attr ?db' ''wallpapers'' = Inr (PDict ?walls2)"
    by (simp add: get_attr_set_attr)
  have walls': "wallpapers_of ?db' = ?walls2"
    by (simp only: wallpapers_of_def g sum.case pyval.case)
  have keys: "set (map fst ?walls2) = set (list_wallpapers w directory)"
    by (simp only: delete_all(2) insert_all(2)) auto
  have dist: "distinct (map fst ?walls2)"
    using assms(3) by (intro delete_all(3) insert_all(3))
  have vals: "\<forall>k \<in> set (list_wallpapers w directory).
               map_of ?walls2 k = (if k \<in> set ?stored then map_of walls k
                                 else Some default_wallpaper)"
    by (auto simp: delete_all(1) insert_all(1))
  have upd: "get_attr ?db' ''updated_at'' = Inr (now w)"
    by (simp add: get_attr_set_attr)
  have others: "\<forall>k. k \<noteq> ''wallpapers'' \<and> k \<noteq> ''updated_at'' \<longrightarrow> get_attr ?db' k = get_attr db k"
    by (simp add: get_attr_set_attr)
  have same: "set (list_wallpapers w directory) = set ?stored \<longrightarrow> fst (refresh_body db w) = Inr (0, 0)"
    using body n_new n_del by simp
  have first: "refresh_body db w
      = (Inr (card (set (list_wallpapers w directory) - set ?stored),
              card (set ?stored - set (list_wallpapers w directory))), ?db', w)"
    by (simp only: body n_new n_del)
  show ?thesis
    unfolding Let_def db' walls'
    using first g keys dist vals upd others same by (intro conjI)
qed

lemma refresh_body_spec_sample:
  "get_attr session_catalog ''base_directory'' = Inr (PPath [''/'', ''home'', ''walls''])
   \<and> get_attr session_catalog ''wallpapers''
       = Inr (PDict [(''wall1.png'', PWallpaper (PBool False) (PBool False) (PBool False)),
                     (''wall2.jpg'', PWallpaper (PBool True) (PBool False) (PBool False)),
                     (''gone.png'', PWallpaper (PBool False) (PBool False) (PBool False))])
   \<and> distinct (map fst
         [(''wall1.png'', PWallpaper (PBool False) (PBool False) (PBool False)),
          (''wall2.jpg'', PWallpaper (PBool True) (PBool False) (PBool False)),
          (''gone.png'', PWallpaper (PBool False) (PBool False) (PBool False))])
   \<and> list_wallpapers world_sample [''/'', ''home'', ''walls'']
       = [''wall1.png'', ''wall2.jpg'', ''nature/lake.gif'']
   \<and> fst (refresh_body session_catalog world_sample) = Inr (1, 1)
   \<and> set (map fst (wallpapers_of (fst (snd (refresh_body session_catalog world_sample)))))
       = set [''wall1.png'', ''wall2.jpg'', ''nature/lake.gif'']
   \<and> map_of (wallpapers_of (fst (snd (refresh_body session_catalog world_sample)))) ''wall2.jpg''
       = Some (PWallpaper (PBool True) (PBool False) (PBool False))
   \<and> map_of (wallpapers_of (fst (snd (refresh_body session_catalog world_sample))))
         ''nature/lake.gif''
       = Some default_wallpaper
   \<and> get_attr (fst (snd (refresh_body session_catalog world_sample))) ''updated_at''
       = Inr (now world_sample)"
proof -
  let ?walls = "[(''wall1.png'', PWallpaper (PBool False) (PBool False) (PBool False)),
                 (''wall2.jpg'', PWallpaper (PBool True) (PBool False) (PBool False)),
                 (''gone.png'', PWallpaper (PBool False) (PBool False) (PBool False))]"
  let ?dir = "[''/'', ''home'', ''walls'']"
  have h1: "get_attr session_catalog ''base_directory'' = Inr (PPath ?dir)"
    by code_simp
  have h2: "get_attr session_catalog ''wallpapers'' = Inr (PDict ?walls)"
    by code_simp
  have h3: "distinct (map fst ?walls)" by code_simp
  have l: "list_wallpapers world_sample ?dir = [''wall1.png'', ''wall2.jpg'', ''nature/lake.gif'']"
    by code_simp
  have c: "fst (refresh_body session_catalog world_sample) = Inr (1, 1)"
    by code_simp
  note t = refresh_body_spec [OF h1 h2 h3, of world_sample, unfolded Let_def l]
  have k: "set (map fst (wallpapers_of (fst (snd (refresh_body session_catalog world_sample)))))
       = set [''wall1.png'', ''wall2.jpg'', ''nature/lake.gif'']"
    using t by (elim conjE)
  have v: "\<forall>k \<in> set [''wall1.png'', ''wall2.jpg'', ''nature/lake.gif''].
        map_of (wallpapers_of (fst (snd (refresh_body session_catalog world_sample)))) k
          = (if k \<in> set (map fst ?walls) then map_of ?walls k else Some default_wallpaper)"
    using t by (elim conjE)
  have m2: "''wall2.jpg'' \<in> set [''wall1.png'', ''wall2.jpg'', ''nature/lake.gif'']" by code_simp
  have m3: "''nature/lake.gif'' \<in> set [''wall1.png'', ''wall2.jpg'', ''nature/lake.gif'']" by code_simp
  have e2: "(if ''wall2.jpg'' \<in> set (map fst ?walls) then map_of ?walls ''wall2.jpg''
             else Some default_wallpaper) = Some (PWallpaper (PBool True) (PBool False) (PBool False))"
    by code_simp
  have e3: "(if ''nature/lake.gif'' \<in> set (map fst ?walls) then map_of ?walls ''nature/lake.gif''
             else Some default_wallpaper) = Some default_wallpaper"
    by code_simp
  have v2: "map_of (wallpapers_of (fst (snd (refresh_body session_catalog world_sample)))) ''wall2.jpg''
       = Some (PWallpaper (PBool True) (PBool False) (PBool False))"
    using v [rule_format, OF m2] unfolding e2 .
  have v3: "map_of (wallpapers_of (fst (snd (refresh_body session_catalog world_sample)))) ''nature/lake.gif''
       = Some default_wallpaper"
    using v [rule_format, OF m3] unfolding e3 .
  have u: "get_attr (fst (snd (refresh_body session_catalog world_sample))) ''updated_at''
       = Inr (now world_sample)"
    using t by (elim conjE)
  from h1 h2 h3 l c k v2 v3 u show ?thesis by (intro conjI)
qed

text \<open>
  C6 fails on the code, by the defect of \<^verbatim>\<open>_list_wallpapers\<close> that C5 shows. The catalog of
  the base directory \<^verbatim>\<open>/home/.walls\<close> stores the key \<^verbatim>\<open>a.png\<close>. The file is on disk below
  the base directory, its path relative to the base directory has no hidden segment
  and its suffix is \<^verbatim>\<open>.png\<close>: it is an eligible file, stored and unchanged. \<^verbatim>\<open>refresh\<close> on
  this catalog and an unchanged directory nevertheless returns 0 new and 1 deleted, and
  the document it writes back has no entry left.
\<close>

theorem refresh_hidden_base:
  "is_file (world_with doc_hidden) [''/'', ''home'', ''.walls'', ''a.png'']
   \<and> list_ex hidden_part [''a.png''] = False
   \<and> suffix [''/'', ''home'', ''.walls'', ''a.png''] = ''.png''
   \<and> fst (refresh lib_sample (world_with doc_hidden)) = Inr (0, 1)
   \<and> db_file (snd (refresh lib_sample (world_with doc_hidden)))
       = Some (Document
           (JObj [(''base_directory'',
                   JObj [(''path'', JStr ''/home/.walls''), (''_type'', JStr ''PosixPath'')]),
                  (''wallpapers'', JObj []),
                  (''updated_at'',
                   JObj [(''datetime'', JStr ''1970-01-01T00:00:00''),
                         (''_type'', JStr ''datetime'')]),
                  (''created_at'',
                   JObj [(''datetime'', JStr ''1970-01-01T00:00:00+01:00''),
                         (''_type'', JStr ''datetime'')]),
                  (''should_update'', JBool False),
                  (''startpage'',
                   JObj [(''updated_at'', JNull), (''current'', JNull),
                         (''_type'', JStr ''Target'')])]))"
  by code_simp

section \<open>refresh on a missing base directory\<close>

lemma open_db_error_kinds:
  "fst (open_db lib m w) \<noteq> Inl DatabaseDirectoryNotFoundError"
  by (auto simp: open_db_def json_load_def Let_def split: option.splits sum.splits
      oserror.splits content.splits if_splits)

lemma open_db_world:
  "open_db lib m w = (r, w1) \<Longrightarrow>
   root w1 = root w \<and> cwd w1 = cwd w \<and> clock w1 = clock w \<and> rnd w1 = rnd w
   \<and> write_fails w1 = write_fails w \<and> unlock_fails w1 = unlock_fails w"
  by (auto simp: open_db_def fopen_def log_def Let_def split: option.splits sum.splits
      oserror.splits if_splits)

lemma save_error_kinds:
  "fst (save lib s w) \<noteq> Some DatabaseDirectoryNotFoundError"
  by (auto simp: save_def Let_def split: option.splits sum.splits if_splits simp del: dumps.simps)

lemma close_error_kinds:
  "fst (close s w) \<noteq> Some DatabaseDirectoryNotFoundError"
  by (auto simp: close_def Let_def split: prod.splits option.splits if_splits)

lemma exit_db_error_kinds:
  "fst (exit_db lib s ok w) \<noteq> Some DatabaseDirectoryNotFoundError"
proof (cases "save lib s w")
  case (fields r s1 w1)
  with save_error_kinds [of lib s w] have "r \<noteq> Some DatabaseDirectoryNotFoundError" by simp
  with fields close_error_kinds [of s1 w1] close_error_kinds [of s w] show ?thesis
    by (auto simp: exit_db_def split: option.splits)
qed

lemma refresh_body_error_kinds:
  "fst (refresh_body db w) \<noteq> Inl DatabaseDirectoryNotFoundError"
  by (auto simp: refresh_body_def Let_def split: sum.splits pyval.splits)

lemma with_db_error_kinds:
  assumes "\<And>s w. fst (body s w) \<noteq> Inl DatabaseDirectoryNotFoundError"
  shows "fst (with_db lib m body w) \<noteq> Inl DatabaseDirectoryNotFoundError"
proof -
  have o: "\<And>w'. open_db lib m w \<noteq> (Inl DatabaseDirectoryNotFoundError, w')"
    using open_db_error_kinds [of lib m w] by auto
  have x: "\<And>s ok w s' w'. exit_db lib s ok w \<noteq> (Some DatabaseDirectoryNotFoundError, s', w')"
  proof
    fix s ok w s' w'
    assume "exit_db lib s ok w = (Some DatabaseDirectoryNotFoundError, s', w')"
    then have "fst (exit_db lib s ok w) = Some DatabaseDirectoryNotFoundError" by simp
    with exit_db_error_kinds show False by blast
  qed
  have b: "\<And>s w s' w'. body s w \<noteq> (Inl DatabaseDirectoryNotFoundError, s', w')"
  proof
    fix s w s' w'
    assume "body s w = (Inl DatabaseDirectoryNotFoundError, s', w')"
    then have "fst (body s w) = Inl DatabaseDirectoryNotFoundError" by simp
    with assms show False by blast
  qed
  show ?thesis
    using o x b by (auto simp: with_db_def split: prod.splits sum.splits option.splits)
qed

lemma refresh_never_directory_error:
  "fst (refresh lib w) \<noteq> Inl DatabaseDirectoryNotFoundError"
  unfolding refresh_def by (rule with_db_error_kinds) (rule refresh_body_error_kinds)

lemma list_wallpapers_absent: "\<not> is_dir w directory \<Longrightarrow> list_wallpapers w directory = []"
  by (auto simp: list_wallpapers_def rglob_def is_dir_def split: option.splits node.splits)

lemma with_db_success:
  "open_db lib m w = (Inr s, w1) \<Longrightarrow> body (enter s) w1 = (Inr r, s2, w2) \<Longrightarrow>
   fst (exit_db lib s2 True w2) = None \<Longrightarrow> fst (with_db lib m body w) = Inr r"
  by (auto simp: with_db_def split: prod.splits option.splits)

lemma get_attr_enter: "get_attr (enter s) k = get_attr s k"
  by (simp add: get_attr_def enter_def)

lemma is_dir_cong: "root w1 = root w \<Longrightarrow> cwd w1 = cwd w \<Longrightarrow> is_dir w1 p = is_dir w p"
  by (simp add: is_dir_def resolve_def)

text \<open>
  Claim C9. \<^verbatim>\<open>refresh\<close> never fails with \<^verbatim>\<open>DatabaseDirectoryNotFoundError\<close>, whatever the file,
  the tree and the failures of the world. It does not look whether the stored base
  directory exists: when the session opens on a record whose base directory is no
  directory of the tree, the walk finds nothing, every stored entry is deleted, and
  \<^verbatim>\<open>refresh\<close> returns 0 new and as many deleted as the record held (the block's result is
  returned once the record has been written back).
\<close>

theorem refresh_missing_directory:
  "fst (refresh lib w) \<noteq> Inl DatabaseDirectoryNotFoundError
   \<and> (open_db lib ''w'' w = (Inr s, w1)
        \<and> get_attr s ''base_directory'' = Inr (PPath directory)
        \<and> get_attr s ''wallpapers'' = Inr (PDict walls)
        \<and> distinct (map fst walls)
        \<and> \<not> is_dir w directory
        \<and> fst (exit_db lib (fst (snd (refresh_body (enter s) w1))) True w1) = None
      \<longrightarrow> list_wallpapers w directory = []
          \<and> fst (refresh lib w) = Inr (0, length walls)
          \<and> wallpapers_of (fst (snd (refresh_body (enter s) w1))) = [])"
proof (intro conjI impI)
  show "fst (refresh lib w) \<noteq> Inl DatabaseDirectoryNotFoundError"
    by (rule refresh_never_directory_error)
next
  assume a: "open_db lib ''w'' w = (Inr s, w1)
        \<and> get_attr s ''base_directory'' = Inr (PPath directory)
        \<and> get_attr s ''wallpapers'' = Inr (PDict walls)
        \<and> distinct (map fst walls)
        \<and> \<not> is_dir w directory
        \<and> fst (exit_db lib (fst (snd (refresh_body (enter s) w1))) True w1) = None"
  note o = a [THEN conjunct1]
  note a2 = a [THEN conjunct2]
  note a3 = a2 [THEN conjunct2]
  note a4 = a3 [THEN conjunct2]
  note a5 = a4 [THEN conjunct2]
  note d = a4 [THEN conjunct1]
  note nd = a5 [THEN conjunct1]
  note x = a5 [THEN conjunct2]
  have b: "get_attr (enter s) ''base_directory'' = Inr (PPath directory)"
    by (simp only: get_attr_enter a2 [THEN conjunct1])
  have ws: "get_attr (enter s) ''wallpapers'' = Inr (PDict walls)"
    by (simp only: get_attr_enter a3 [THEN conjunct1])
  from open_db_world [OF o] have "is_dir w1 directory = is_dir w directory"
    by (intro is_dir_cong) simp_all
  with nd have "\<not> is_dir w1 directory" by simp
  then have l1: "list_wallpapers w1 directory = []" by (rule list_wallpapers_absent)
  from nd have l: "list_wallpapers w directory = []" by (rule list_wallpapers_absent)
  note t = refresh_body_spec [OF b ws d, of w1, unfolded Let_def l1]
  let ?db' = "fst (snd (refresh_body (enter s) w1))"
  have c: "card (set (map fst walls)) = length walls"
    using distinct_card [OF d] by (simp only: length_map)
  have "refresh_body (enter s) w1
          = (Inr (card (set [] - set (map fst walls)), card (set (map fst walls) - set [])),
             ?db', w1)"
    by (rule t [THEN conjunct1])
  then have r: "refresh_body (enter s) w1 = (Inr (0, length walls), ?db', w1)"
    by (simp only: list.set empty_Diff Diff_empty card.empty c)
  have "set (map fst (wallpapers_of ?db')) = set []"
    by (rule t [THEN conjunct2, THEN conjunct2, THEN conjunct2, THEN conjunct1])
  then have k: "set (map fst (wallpapers_of ?db')) = {}"
    by (simp only: list.set)
  then have e: "wallpapers_of ?db' = []" by simp
  have f: "fst (refresh lib w) = Inr (0, length walls)"
    unfolding refresh_def by (rule with_db_success [where body = refresh_body, OF o r x])
  from l show "list_wallpapers w directory = []" .
  from f show "fst (refresh lib w) = Inr (0, length walls)" .
  from e show "wallpapers_of ?db' = []" .
qed

theorem refresh_missing_directory_witness:
  "open_db lib_sample ''w'' ((world_with doc_sample)\<lparr>root := Dir []\<rparr>)
     = (Inr (session_catalog\<lparr>writeback := False\<rparr>),
        snd (open_db lib_sample ''w'' ((world_with doc_sample)\<lparr>root := Dir []\<rparr>)))
   \<and> \<not> is_dir ((world_with doc_sample)\<lparr>root := Dir []\<rparr>) [''/'', ''home'', ''walls'']
   \<and> list_wallpapers ((world_with doc_sample)\<lparr>root := Dir []\<rparr>) [''/'', ''home'', ''walls''] = []
   \<and> fst (refresh lib_sample ((world_with doc_sample)\<lparr>root := Dir []\<rparr>)) = Inr (0, 3)
   \<and> wallpapers_of
         (fst (snd (refresh_body (enter (session_catalog\<lparr>writeback := False\<rparr>))
            (snd (open_db lib_sample ''w'' ((world_with doc_sample)\<lparr>root := Dir []\<rparr>))))))
       = []"
proof -
  let ?w = "(world_with doc_sample)\<lparr>root := Dir []\<rparr>"
  let ?s = "session_catalog\<lparr>writeback := False\<rparr>"
  let ?w1 = "snd (open_db lib_sample ''w'' ?w)"
  let ?dir = "[''/'', ''home'', ''walls'']"
  let ?walls = "[(''wall1.png'', PWallpaper (PBool False) (PBool False) (PBool False)),
                 (''wall2.jpg'', PWallpaper (PBool True) (PBool False) (PBool False)),
                 (''gone.png'', PWallpaper (PBool False) (PBool False) (PBool False))]"
  have o: "open_db lib_sample ''w'' ?w = (Inr ?s, ?w1)" by code_simp
  have b: "get_attr ?s ''base_directory'' = Inr (PPath ?dir)" by code_simp
  have ws: "get_attr ?s ''wallpapers'' = Inr (PDict ?walls)" by code_simp
  have d: "distinct (map fst ?walls)" by code_simp
  have nd: "\<not> is_dir ?w ?dir" by code_simp
  have x: "fst (exit_db lib_sample (fst (snd (refresh_body (enter ?s) ?w1))) True ?w1) = None"
    by code_simp
  have n: "length ?walls = 3" by code_simp
  from o b ws d nd x
  have h: "open_db lib_sample ''w'' ?w = (Inr ?s, ?w1)
        \<and> get_attr ?s ''base_directory'' = Inr (PPath ?dir)
        \<and> get_attr ?s ''wallpapers'' = Inr (PDict ?walls)
        \<and> distinct (map fst ?walls)
        \<and> \<not> is_dir ?w ?dir
        \<and> fst (exit_db lib_sample (fst (snd (refresh_body (enter ?s) ?w1))) True ?w1) = None"
    by (intro conjI)
  note t = refresh_missing_directory [of lib_sample ?w ?s ?w1 ?dir ?walls,
      THEN conjunct2, rule_format, OF h, unfolded n]
  from o nd t [THEN conjunct1] t [THEN conjunct2, THEN conjunct1]
    t [THEN conjunct2, THEN conjunct2]
  show ?thesis by (intro conjI)
qed

section \<open>The startpage selection: the loop over the unused keys\<close>

lemma choice_result:
  "choice xs w = Inr (k, w1) \<Longrightarrow>
   k \<in> set xs \<and> root w1 = root w \<and> cwd w1 = cwd w \<and> trace w1 = trace w \<and> clock w1 = clock w
   \<and> link_fails w1 = link_fails w \<and> db_file w1 = db_file w"
  by (auto simp: choice_def split: if_splits list.splits)

lemma choice_empty: "choice xs w = Inl e \<Longrightarrow> xs = [] \<and> e = IndexError"
  by (auto simp: choice_def split: if_splits list.splits)

lemma is_file_cong: "root w1 = root w \<Longrightarrow> cwd w1 = cwd w \<Longrightarrow> is_file w1 p = is_file w p"
  by (simp add: is_file_def resolve_def)

lemma absolute_cong: "cwd w1 = cwd w \<Longrightarrow> absolute w1 p = absolute w p"
  by (simp add: absolute_def split: list.splits)

lemma now_cong: "clock w1 = clock w \<Longrightarrow> now w1 = now w"
  by (simp add: now_def)

text \<open>One turn of the loop of \<^verbatim>\<open>_set_startpage\<close>, case by case.\<close>

lemma set_startpage_loop_Suc:
  assumes "set_startpage_loop (Suc n) bg unused db w = (r, unused', db', w')"
      and "get_attr db ''base_directory'' = Inr (PPath base)"
  obtains
    (empty) "unused = []" "r = Inl (Builtin IndexError)" "unused' = unused" "db' = db" "w' = w"
  | (link) k w1 where "choice unused w = Inr (k, w1)" "is_file w (path_join base k)"
      "link_fails w" "r = Inl (Builtin OSError)" "unused' = unused" "db' = db" "w' = w1"
  | (found) k w1 where "choice unused w = Inr (k, w1)" "is_file w (path_join base k)"
      "\<not> link_fails w" "unused' = unused"
      "w' = log (Installed bg (absolute w (path_join base k))) w1"
      "(r, db') =
         (case mark_used db k of
            Inl e \<Rightarrow> (Inl (Builtin e), db)
          | Inr db1 \<Rightarrow>
              (case set_target db1 (path_join base k) w' of
                 Inl e \<Rightarrow> (Inl (Builtin e), db1)
               | Inr db2 \<Rightarrow> (Inr True, db2)))"
  | (stale) k w1 where "choice unused w = Inr (k, w1)" "\<not> is_file w (path_join base k)"
      "set_startpage_loop n bg (remove1 k unused) (set_attr db ''should_update'' (PBool True))
         (log (Warned ''Database contains non-existent file and should be refreshed'') w1)
       = (r, unused', db', w')"
proof (cases "choice unused w")
  case (Inl e)
  with assms choice_empty [OF Inl] show ?thesis by (intro empty) auto
next
  case (Inr kw)
  obtain k w1 where kw: "kw = (k, w1)" by (cases kw) auto
  note c = Inr [unfolded kw]
  note f = choice_result [OF c]
  have i: "is_file w1 (path_join base k) = is_file w (path_join base k)"
    using f by (intro is_file_cong) simp_all
  have a: "absolute w1 (path_join base k) = absolute w (path_join base k)"
    using f by (intro absolute_cong) simp_all
  show ?thesis
  proof (cases "is_file w (path_join base k)")
    case False
    with assms c i show ?thesis by (intro stale [of k w1]) (simp_all add: Let_def)
  next
    case True
    show ?thesis
    proof (cases "link_fails w")
      case lf: True
      with assms c i True f show ?thesis by (intro link [of k w1]) (simp_all add: Let_def)
    next
      case lf: False
      with assms c i a True f show ?thesis
        by (intro found [of k w1]) (auto simp: Let_def split: sum.splits)
    qed
  qed
qed


lemma base_directory_kept:
  "get_attr db ''base_directory'' = Inr (PPath base) \<Longrightarrow>
   get_attr (set_attr db ''should_update'' v) ''base_directory'' = Inr (PPath base)"
  by (simp add: get_attr_set_attr)

lemma is_file_warned:
  "choice unused w = Inr (k, w1) \<Longrightarrow> is_file (log e w1) p = is_file w p"
  by (rule is_file_cong) (simp_all add: log_def choice_result)

text \<open>What the loop leaves of the list: the keys it took out are keys without a file.\<close>

lemma set_startpage_loop_unused:
  assumes "set_startpage_loop n bg unused db w = (r, unused', db', w')"
      and "get_attr db ''base_directory'' = Inr (PPath base)"
      and "distinct unused"
  shows "distinct unused' \<and> set unused' \<subseteq> set unused
     \<and> (\<forall>k \<in> set unused - set unused'. \<not> is_file w (path_join base k))"
  using assms
proof (induction n arbitrary: unused db w)
  case 0
  then show ?case by simp
next
  case (Suc n)
  from Suc.prems(1,2) show ?case
  proof (cases rule: set_startpage_loop_Suc)
    case empty
    with Suc.prems show ?thesis by simp
  next
    case (link k w1)
    with Suc.prems show ?thesis by simp
  next
    case (found k w1)
    with Suc.prems show ?thesis by simp
  next
    case (stale k w1)
    have d: "distinct (remove1 k unused)" using Suc.prems(3) by simp
    note ih = Suc.IH [OF stale(3) base_directory_kept [OF Suc.prems(2)] d]
    have f: "\<And>p. is_file (log (Warned ''Database contains non-existent file and should be refreshed'') w1) p
               = is_file w p"
      by (rule is_file_warned [OF stale(1)])
    from ih have 1: "distinct unused'" by simp
    from ih have 2: "set unused' \<subseteq> set unused" using set_remove1_subset [of k unused] by blast
    have 3: "\<not> is_file w (path_join base x)" if x: "x \<in> set unused - set unused'" for x
    proof (cases "x = k")
      case True
      with stale(2) show ?thesis by simp
    next
      case False
      with x Suc.prems(3) have "x \<in> set (remove1 k unused) - set unused'" by simp
      with ih have "\<not> is_file (log (Warned ''Database contains non-existent file and should be refreshed'') w1)
                       (path_join base x)" by blast
      then show ?thesis unfolding f .
    qed
    from 1 2 3 show ?thesis by blast
  qed
qed


lemma choice_fields:
  "choice xs w = Inr (k, w1) \<Longrightarrow>
   db_file w1 = db_file w \<and> open_fails w1 = open_fails w \<and> lock_fails w1 = lock_fails w
   \<and> unlock_fails w1 = unlock_fails w \<and> write_fails w1 = write_fails w
   \<and> flush_fails w1 = flush_fails w \<and> link_fails w1 = link_fails w
   \<and> root w1 = root w \<and> cwd w1 = cwd w \<and> clock w1 = clock w \<and> trace w1 = trace w"
  by (auto simp: choice_def split: if_splits list.splits)

text \<open>The loop changes nothing of the world but the trace and the random supply.\<close>

lemma set_startpage_loop_world:
  assumes "set_startpage_loop n bg unused db w = (r, unused', db', w')"
      and "get_attr db ''base_directory'' = Inr (PPath base)"
  shows "db_file w' = db_file w \<and> open_fails w' = open_fails w \<and> lock_fails w' = lock_fails w
   \<and> unlock_fails w' = unlock_fails w \<and> write_fails w' = write_fails w
   \<and> flush_fails w' = flush_fails w \<and> link_fails w' = link_fails w
   \<and> root w' = root w \<and> cwd w' = cwd w \<and> clock w' = clock w"
  using assms
proof (induction n arbitrary: unused db w)
  case 0
  then show ?case by simp
next
  case (Suc n)
  from Suc.prems(1,2) show ?case
  proof (cases rule: set_startpage_loop_Suc)
    case empty
    then show ?thesis by simp
  next
    case (link k w1)
    with choice_fields [OF link(1)] show ?thesis by simp
  next
    case (found k w1)
    with choice_fields [OF found(1)] show ?thesis by (simp add: log_def)
  next
    case (stale k w1)
    from Suc.IH [OF stale(3) base_directory_kept [OF Suc.prems(2)]] choice_fields [OF stale(1)]
    show ?thesis by (simp add: log_def)
  qed
qed


lemma set_startpage_loop_length:
  assumes "set_startpage_loop n bg unused db w = (r, unused', db', w')"
      and "get_attr db ''base_directory'' = Inr (PPath base)"
      and "distinct unused"
  shows "length unused' \<le> length unused"
proof -
  from set_startpage_loop_unused [OF assms]
  have d: "distinct unused'" and s: "set unused' \<subseteq> set unused" by simp_all
  from s have "card (set unused') \<le> card (set unused)" by (intro card_mono) simp_all
  with d assms(3) show ?thesis by (simp add: distinct_card)
qed

text \<open>
  What the loop adds to the trace: one warning for each key it took out of the list,
  then nothing, or the link to the file of a key that is still in the list.
\<close>

lemma set_startpage_loop_trace:
  assumes "set_startpage_loop n bg unused db w = (r, unused', db', w')"
      and "get_attr db ''base_directory'' = Inr (PPath base)"
      and "distinct unused"
  shows "\<exists>tail. trace w' = trace w
            @ replicate (length unused - length unused')
                (Warned ''Database contains non-existent file and should be refreshed'')
            @ tail
        \<and> (tail = [] \<or> (\<exists>k \<in> set unused'. is_file w (path_join base k)
                          \<and> tail = [Installed bg (absolute w (path_join base k))]))
        \<and> (r = Inr False \<longrightarrow> tail = []) \<and> (r = Inr True \<longrightarrow> tail \<noteq> [])"
  using assms
proof (induction n arbitrary: unused db w)
  case 0
  then show ?case by auto
next
  case (Suc n)
  from Suc.prems(1,2) show ?case
  proof (cases rule: set_startpage_loop_Suc)
    case empty
    then show ?thesis by simp
  next
    case (link k w1)
    with choice_fields [OF link(1)] show ?thesis by simp
  next
    case (found k w1)
    from found(1) have k: "k \<in> set unused" by (simp add: choice_result)
    have t: "trace w' = trace w @ [Installed bg (absolute w (path_join base k))]"
      using found(5) choice_fields [OF found(1)] by (simp add: log_def)
    have r: "r \<noteq> Inr False"
      using found(6) by (auto split: sum.splits)
    from t k found(2,4) r show ?thesis by auto
  next
    case (stale k w1)
    let ?W = "Warned ''Database contains non-existent file and should be refreshed''"
    have d: "distinct (remove1 k unused)" using Suc.prems(3) by simp
    note b = base_directory_kept [OF Suc.prems(2)]
    from stale(1) have k: "k \<in> set unused" by (simp add: choice_result)
    have f: "\<And>p. is_file (log ?W w1) p = is_file w p"
      by (rule is_file_warned [OF stale(1)])
    have a: "\<And>p. absolute (log ?W w1) p = absolute w p"
      using choice_fields [OF stale(1)] by (intro absolute_cong) (simp add: log_def)
    from Suc.IH [OF stale(3) b d] obtain tail where
      t: "trace w' = trace (log ?W w1)
            @ replicate (length (remove1 k unused) - length unused') ?W @ tail"
      and c: "tail = [] \<or> (\<exists>x \<in> set unused'. is_file (log ?W w1) (path_join base x)
                          \<and> tail = [Installed bg (absolute (log ?W w1) (path_join base x))])"
      and e: "r = Inr False \<longrightarrow> tail = []" "r = Inr True \<longrightarrow> tail \<noteq> []"
      by blast
    have l: "length unused' \<le> length (remove1 k unused)"
      by (rule set_startpage_loop_length [OF stale(3) b d])
    have m: "length (remove1 k unused) = length unused - 1"
      using k by (simp add: length_remove1)
    have p: "0 < length unused" using k by (cases unused) auto
    from l m p have n: "length unused - length unused'
                         = Suc (length (remove1 k unused) - length unused')" by arith
    have t': "trace w' = trace w @ replicate (length unused - length unused') ?W @ tail"
      unfolding n t using choice_fields [OF stale(1)] by (simp add: log_def)
    from c have c': "tail = [] \<or> (\<exists>x \<in> set unused'. is_file w (path_join base x)
                          \<and> tail = [Installed bg (absolute w (path_join base x))])"
      unfolding f a .
    from t' c' e show ?thesis by blast
  qed
qed


lemma set_attr_private:
  "mode (set_attr db k v) = mode db \<and> writeback (set_attr db k v) = writeback db
   \<and> lock_op (set_attr db k v) = lock_op db \<and> locked (set_attr db k v) = locked db
   \<and> closed (set_attr db k v) = closed db \<and> pending (set_attr db k v) = pending db"
  by (simp add: set_attr_def)

lemma mark_used_result:
  "mark_used db k = Inr db1 \<Longrightarrow>
   \<exists>walls su ms mu. get_attr db ''wallpapers'' = Inr (PDict walls)
      \<and> map_of walls k = Some (PWallpaper su ms mu)
      \<and> db1 = set_attr db ''wallpapers'' (PDict (dict_set walls k (PWallpaper (PBool True) ms mu)))"
  by (auto simp: mark_used_def set_used_def split: sum.splits pyval.splits option.splits)

lemma set_target_result:
  "set_target db p w = Inr db1 \<Longrightarrow> db1 = set_attr db ''startpage'' (PTarget (now w) (PPath p))"
  by (auto simp: set_target_def split: sum.splits pyval.splits)

text \<open>
  What the loop does to the record: \<^verbatim>\<open>should_update\<close> is set as soon as a key is taken out of
  the list; only \<^verbatim>\<open>wallpapers\<close> and \<^verbatim>\<open>startpage\<close> can change besides, and the private
  attributes never.
\<close>

lemma set_startpage_loop_record:
  assumes "set_startpage_loop n bg unused db w = (r, unused', db', w')"
      and "get_attr db ''base_directory'' = Inr (PPath base)"
      and "distinct unused"
  shows "get_attr db' ''should_update''
           = (if length unused' = length unused then get_attr db ''should_update''
              else Inr (PBool True))
     \<and> (\<forall>a. a \<noteq> ''should_update'' \<and> a \<noteq> ''wallpapers'' \<and> a \<noteq> ''startpage''
            \<longrightarrow> get_attr db' a = get_attr db a)
     \<and> mode db' = mode db \<and> writeback db' = writeback db \<and> lock_op db' = lock_op db
     \<and> locked db' = locked db \<and> closed db' = closed db \<and> pending db' = pending db"
  using assms
proof (induction n arbitrary: unused db w)
  case 0
  then show ?case by simp
next
  case (Suc n)
  from Suc.prems(1,2) show ?case
  proof (cases rule: set_startpage_loop_Suc)
    case empty
    then show ?thesis by simp
  next
    case (link k w1)
    then show ?thesis by simp
  next
    case (found k w1)
    from found(6) have "db' = db
        \<or> (\<exists>v. db' = set_attr db ''wallpapers'' v)
        \<or> (\<exists>v u. db' = set_attr (set_attr db ''wallpapers'' v) ''startpage'' u)"
      by (auto split: sum.splits dest!: mark_used_result set_target_result)
    with found(4) show ?thesis
      by (auto simp: get_attr_set_attr set_attr_private)
  next
    case (stale k w1)
    have d: "distinct (remove1 k unused)" using Suc.prems(3) by simp
    note b = base_directory_kept [OF Suc.prems(2)]
    from stale(1) have k: "k \<in> set unused" by (simp add: choice_result)
    have l: "length unused' \<le> length (remove1 k unused)"
      by (rule set_startpage_loop_length [OF stale(3) b d])
    have m: "length (remove1 k unused) = length unused - 1"
      using k by (simp add: length_remove1)
    have p: "0 < length unused" using k by (cases unused) auto
    from l m p have n: "length unused' \<noteq> length unused" by arith
    from Suc.IH [OF stale(3) b d] n show ?thesis
      by (simp add: get_attr_set_attr set_attr_private)
  qed
qed

text \<open>
  A loop that runs as often as the list is long and returns \<^verbatim>\<open>False\<close> has emptied the
  list, and has left \<^verbatim>\<open>wallpapers\<close> and \<^verbatim>\<open>startpage\<close> as they were.
\<close>

lemma set_startpage_loop_False:
  assumes "set_startpage_loop n bg unused db w = (Inr False, unused', db', w')"
      and "get_attr db ''base_directory'' = Inr (PPath base)"
  shows "(length unused \<le> n \<longrightarrow> unused' = [])
     \<and> get_attr db' ''wallpapers'' = get_attr db ''wallpapers''
     \<and> get_attr db' ''startpage'' = get_attr db ''startpage''"
  using assms
proof (induction n arbitrary: unused db w)
  case 0
  then show ?case by simp
next
  case (Suc n)
  from Suc.prems(1,2) show ?case
  proof (cases rule: set_startpage_loop_Suc)
    case empty
    then show ?thesis by simp
  next
    case (link k w1)
    then show ?thesis by simp
  next
    case (found k w1)
    then show ?thesis by (auto split: sum.splits)
  next
    case (stale k w1)
    from stale(1) have k: "k \<in> set unused" by (simp add: choice_result)
    have m: "length (remove1 k unused) = length unused - 1"
      using k by (simp add: length_remove1)
    from Suc.IH [OF stale(3) base_directory_kept [OF Suc.prems(2)]] m show ?thesis
      by (auto simp: get_attr_set_attr)
  qed
qed


text \<open>
  A loop that returns \<^verbatim>\<open>True\<close> has linked the file of one key of the list, which has a
  file; it has set the flag of that key and no other, and the record's \<^verbatim>\<open>startpage\<close> holds
  the path of that file.
\<close>

lemma set_startpage_loop_True:
  assumes "set_startpage_loop n bg unused db w = (Inr True, unused', db', w')"
      and "get_attr db ''base_directory'' = Inr (PPath base)"
      and "distinct unused"
      and "get_attr db ''wallpapers'' = Inr (PDict walls)"
  shows "\<exists>k su ms mu. k \<in> set unused' \<and> is_file w (path_join base k)
     \<and> trace w' = trace w
           @ replicate (length unused - length unused')
               (Warned ''Database contains non-existent file and should be refreshed'')
           @ [Installed bg (absolute w (path_join base k))]
     \<and> map_of walls k = Some (PWallpaper su ms mu)
     \<and> get_attr db' ''wallpapers'' = Inr (PDict (dict_set walls k (PWallpaper (PBool True) ms mu)))
     \<and> get_attr db' ''startpage'' = Inr (PTarget (now w) (PPath (path_join base k)))"
  using assms
proof (induction n arbitrary: unused db w)
  case 0
  then show ?case by simp
next
  case (Suc n)
  from Suc.prems(1,2) show ?case
  proof (cases rule: set_startpage_loop_Suc)
    case empty
    then show ?thesis by simp
  next
    case (link k w1)
    then show ?thesis by simp
  next
    case (found k w1)
    from found(1) have k: "k \<in> set unused" by (simp add: choice_result)
    have t: "trace w' = trace w @ [Installed bg (absolute w (path_join base k))]"
      using found(5) choice_fields [OF found(1)] by (simp add: log_def)
    have c: "now w' = now w"
      using found(5) choice_fields [OF found(1)] by (intro now_cong) (simp add: log_def)
    from found(6) obtain db1 where m: "mark_used db k = Inr db1"
      and s: "set_target db1 (path_join base k) w' = Inr db'"
      by (auto split: sum.splits)
    from mark_used_result [OF m] Suc.prems(4) obtain su ms mu where
      v: "map_of walls k = Some (PWallpaper su ms mu)"
      and d1: "db1 = set_attr db ''wallpapers''
                 (PDict (dict_set walls k (PWallpaper (PBool True) ms mu)))"
      by auto
    from set_target_result [OF s] c
    have d2: "db' = set_attr db1 ''startpage'' (PTarget (now w) (PPath (path_join base k)))"
      by simp
    have w: "get_attr db' ''wallpapers''
               = Inr (PDict (dict_set walls k (PWallpaper (PBool True) ms mu)))"
      unfolding d2 d1 by (simp add: get_attr_set_attr)
    have p: "get_attr db' ''startpage'' = Inr (PTarget (now w) (PPath (path_join base k)))"
      unfolding d2 by (simp add: get_attr_set_attr)
    from k found(2,4) t v w p show ?thesis by auto
  next
    case (stale k w1)
    let ?W = "Warned ''Database contains non-existent file and should be refreshed''"
    have d: "distinct (remove1 k unused)" using Suc.prems(3) by simp
    note b = base_directory_kept [OF Suc.prems(2)]
    have ws: "get_attr (set_attr db ''should_update'' (PBool True)) ''wallpapers''
                = Inr (PDict walls)"
      using Suc.prems(4) by (simp add: get_attr_set_attr)
    from stale(1) have k: "k \<in> set unused" by (simp add: choice_result)
    have f: "\<And>p. is_file (log ?W w1) p = is_file w p"
      by (rule is_file_warned [OF stale(1)])
    have a: "\<And>p. absolute (log ?W w1) p = absolute w p"
      using choice_fields [OF stale(1)] by (intro absolute_cong) (simp add: log_def)
    have c: "now (log ?W w1) = now w"
      using choice_fields [OF stale(1)] by (intro now_cong) (simp add: log_def)
    from Suc.IH [OF stale(3) b d ws] obtain x su ms mu where
      x: "x \<in> set unused'" "is_file (log ?W w1) (path_join base x)"
      and t: "trace w' = trace (log ?W w1)
            @ replicate (length (remove1 k unused) - length unused') ?W
            @ [Installed bg (absolute (log ?W w1) (path_join base x))]"
      and v: "map_of walls x = Some (PWallpaper su ms mu)"
        "get_attr db' ''wallpapers''
           = Inr (PDict (dict_set walls x (PWallpaper (PBool True) ms mu)))"
        "get_attr db' ''startpage''
           = Inr (PTarget (now (log ?W w1)) (PPath (path_join base x)))"
      by blast
    have l: "length unused' \<le> length (remove1 k unused)"
      by (rule set_startpage_loop_length [OF stale(3) b d])
    have m: "length (remove1 k unused) = length unused - 1"
      using k by (simp add: length_remove1)
    have p: "0 < length unused" using k by (cases unused) auto
    from l m p have n: "length unused - length unused'
                         = Suc (length (remove1 k unused) - length unused')" by arith
    have t': "trace w' = trace w @ replicate (length unused - length unused') ?W
                @ [Installed bg (absolute w (path_join base x))]"
      unfolding n t a using choice_fields [OF stale(1)] by (simp add: log_def)
    from x(2) have x2: "is_file w (path_join base x)" unfolding f .
    from v(3) have v3: "get_attr db' ''startpage''
           = Inr (PTarget (now w) (PPath (path_join base x)))" unfolding c .
    from x(1) x2 t' v(1,2) v3 show ?thesis by blast
  qed
qed

text \<open>
  C7. A run of \<^verbatim>\<open>_set_startpage\<close> on a list of distinct keys, for a record whose base
  directory is a path, whatever it returns. The keys it takes out of the list are keys
  whose path below the base directory is no file, and the trace gains one warning for
  each of them; what it links, if anything, is the file of a key that has a file and
  is still in the list, so the file of an entry without a file is never linked; as
  soon as a key has been taken out, the record's \<^verbatim>\<open>should_update\<close> is true; and when the
  function returns \<^verbatim>\<open>False\<close> it has tried and taken out every key of the list.
\<close>

theorem set_startpage_inner_stale:
  assumes "set_startpage_inner bg unused db w = (r, unused', db', w')"
      and "get_attr db ''base_directory'' = Inr (PPath base)"
      and "distinct unused"
  shows "set unused' \<subseteq> set unused
     \<and> (\<forall>k \<in> set unused - set unused'. \<not> is_file w (path_join base k))
     \<and> (\<exists>tail. trace w' = trace w
            @ replicate (length unused - length unused')
                (Warned ''Database contains non-existent file and should be refreshed'')
            @ tail
          \<and> (tail = [] \<or> (\<exists>k \<in> set unused'. is_file w (path_join base k)
                            \<and> tail = [Installed bg (absolute w (path_join base k))]))
          \<and> (r = Inr False \<longrightarrow> tail = []) \<and> (r = Inr True \<longrightarrow> tail \<noteq> []))
     \<and> (set unused - set unused' \<noteq> {} \<longrightarrow> get_attr db' ''should_update'' = Inr (PBool True))
     \<and> (r = Inr False \<longrightarrow> unused' = [])"
proof -
  note l = assms(1) [unfolded set_startpage_inner_def]
  note u = set_startpage_loop_unused [OF l assms(2,3)]
  from u have 1: "set unused' \<subseteq> set unused" by simp
  from u have 2: "\<forall>k \<in> set unused - set unused'. \<not> is_file w (path_join base k)" by simp
  note 3 = set_startpage_loop_trace [OF l assms(2,3)]
  have 4: "get_attr db' ''should_update'' = Inr (PBool True)"
    if n: "set unused - set unused' \<noteq> {}"
  proof -
    from n 1 have "set unused' \<subset> set unused" by blast
    then have "card (set unused') < card (set unused)" by (intro psubset_card_mono) simp_all
    with u assms(3) have "length unused' \<noteq> length unused" by (simp add: distinct_card)
    with set_startpage_loop_record [OF l assms(2,3)] show ?thesis by simp
  qed
  have 5: "unused' = []" if "r = Inr False"
    using set_startpage_loop_False [OF l [unfolded that] assms(2)] by simp
  from 1 2 3 4 5 show ?thesis by blast
qed


theorem set_startpage_inner_stale_witness:
  "fst (set_startpage_inner [''/'', ''home'', ''bg''] [''gone.png'', ''wall1.png''] session_catalog
          (world_sample\<lparr>rnd := [0]\<rparr>)) = Inr True
   \<and> fst (snd (set_startpage_inner [''/'', ''home'', ''bg''] [''gone.png'', ''wall1.png'']
          session_catalog (world_sample\<lparr>rnd := [0]\<rparr>))) = [''wall1.png'']
   \<and> get_attr session_catalog ''base_directory'' = Inr (PPath [''/'', ''home'', ''walls''])
   \<and> distinct [''gone.png'', ''wall1.png'']
   \<and> set [''gone.png'', ''wall1.png''] - set [''wall1.png''] \<noteq> {}
   \<and> \<not> is_file (world_sample\<lparr>rnd := [0]\<rparr>) (path_join [''/'', ''home'', ''walls''] ''gone.png'')
   \<and> trace (snd (snd (snd (set_startpage_inner [''/'', ''home'', ''bg'']
          [''gone.png'', ''wall1.png''] session_catalog (world_sample\<lparr>rnd := [0]\<rparr>)))))
       = [Warned ''Database contains non-existent file and should be refreshed'',
          Installed [''/'', ''home'', ''bg''] [''/'', ''home'', ''walls'', ''wall1.png'']]
   \<and> get_attr (fst (snd (snd (set_startpage_inner [''/'', ''home'', ''bg'']
          [''gone.png'', ''wall1.png''] session_catalog (world_sample\<lparr>rnd := [0]\<rparr>)))))
         ''should_update'' = Inr (PBool True)"
proof -
  let ?bg = "[''/'', ''home'', ''bg'']"
  let ?u = "[''gone.png'', ''wall1.png'']"
  let ?w = "world_sample\<lparr>rnd := [0]\<rparr>"
  let ?x = "set_startpage_inner ?bg ?u session_catalog ?w"
  have h1: "?x = (Inr True, [''wall1.png''], fst (snd (snd ?x)), snd (snd (snd ?x)))"
    by code_simp
  have h2: "get_attr session_catalog ''base_directory'' = Inr (PPath [''/'', ''home'', ''walls''])"
    by code_simp
  have h3: "distinct ?u" by code_simp
  have n: "set ?u - set [''wall1.png''] \<noteq> {}" by code_simp
  have f: "\<not> is_file ?w (path_join [''/'', ''home'', ''walls''] ''gone.png'')" by code_simp
  have t: "trace (snd (snd (snd ?x)))
       = [Warned ''Database contains non-existent file and should be refreshed'',
          Installed ?bg [''/'', ''home'', ''walls'', ''wall1.png'']]"
    by code_simp
  have r: "fst ?x = Inr True" by code_simp
  have u: "fst (snd ?x) = [''wall1.png'']" by code_simp
  note c = set_startpage_inner_stale [OF h1 h2 h3]
  note s = c [THEN conjunct2, THEN conjunct2, THEN conjunct2, THEN conjunct1, rule_format, OF n]
  from r u h2 h3 n f t s show ?thesis by (intro conjI)
qed

section \<open>The startpage selection: the two rounds\<close>

lemma unused_keys_result:
  "unused_keys kvs = Inr ks \<Longrightarrow> ks = map fst (filter (\<lambda>kv. is_unused (snd kv)) kvs)"
proof (induction kvs arbitrary: ks)
  case Nil
  then show ?case by simp
next
  case (Cons kv kvs)
  obtain k v where kv: "kv = (k, v)" by (cases kv) auto
  from Cons.prems obtain su ms mu ks' where v: "v = PWallpaper su ms mu"
    and r: "unused_keys kvs = Inr ks'" and e: "ks = (if su = PBool False then k # ks' else ks')"
    unfolding kv by (auto split: pyval.splits sum.splits)
  from Cons.IH [OF r] e v kv show ?case by (simp add: is_unused_def)
qed

lemma reset_all_result:
  "reset_all walls = Inr walls' \<Longrightarrow> walls' = map (\<lambda>kv. (fst kv, reset_value (snd kv))) walls
     \<and> (\<forall>kv \<in> set walls'. is_unused (snd kv))"
proof (induction walls arbitrary: walls')
  case Nil
  then show ?case by simp
next
  case (Cons kv kvs)
  obtain k v where kv: "kv = (k, v)" by (cases kv) auto
  from Cons.prems obtain v' kvs' where v: "set_used v False = Inr v'"
    and r: "reset_all kvs = Inr kvs'" and e: "walls' = (k, v') # kvs'"
    unfolding kv by (auto split: sum.splits)
  from v have v1: "v' = reset_value v"
    by (auto simp: set_used_def reset_value_def split: pyval.splits)
  from v have v2: "is_unused (reset_value v)"
    by (auto simp: set_used_def reset_value_def is_unused_def split: pyval.splits)
  from Cons.IH [OF r] e kv v1 v2 show ?case by auto
qed


lemma reset_used_result:
  "reset_used db = Inr db2 \<Longrightarrow> get_attr db ''wallpapers'' = Inr (PDict walls) \<Longrightarrow>
   \<exists>walls'. reset_all walls = Inr walls' \<and> db2 = set_attr db ''wallpapers'' (PDict walls')"
  by (auto simp: reset_used_def split: sum.splits pyval.splits)

text \<open>
  The two rounds of \<^verbatim>\<open>set_startpage\<close>: a selection that succeeds has linked a file in the
  first round, or the first round has emptied the list of unused keys, every flag has
  been reset and the second round, over all included keys, has linked a file.
\<close>

lemma set_startpage_rounds_success:
  assumes "set_startpage_rounds 2 bg included unused db w = (Inr v, db', w')"
      and "get_attr db ''base_directory'' = Inr (PPath base)"
  shows "(\<exists>u1. set_startpage_inner bg unused db w = (Inr True, u1, db', w'))
       \<or> (\<exists>db1 w1 db2 u2. set_startpage_inner bg unused db w = (Inr False, [], db1, w1)
            \<and> reset_used db1 = Inr db2
            \<and> set_startpage_inner bg included db2 w1 = (Inr True, u2, db', w'))"
proof -
  obtain r u1 db1 w1 where i: "set_startpage_inner bg unused db w = (r, u1, db1, w1)"
    by (cases "set_startpage_inner bg unused db w") auto
  have two: "(2::nat) = Suc (Suc 0)" by simp
  show ?thesis
  proof (cases r)
    case (Inl e)
    with assms(1) i show ?thesis unfolding two by simp
  next
    case (Inr b)
    show ?thesis
    proof (cases b)
      case True
      with assms(1) i Inr show ?thesis unfolding two by simp
    next
      case False
      from i Inr False
      have l: "set_startpage_loop (length unused) bg unused db w = (Inr False, u1, db1, w1)"
        by (simp add: set_startpage_inner_def)
      from set_startpage_loop_False [OF l assms(2)] have e: "u1 = []" by simp
      from assms(1) i Inr False e obtain db2 where
        r: "reset_used db1 = Inr db2"
        and n: "set_startpage_rounds (Suc 0) bg included included db2 w1 = (Inr v, db', w')"
        unfolding two by (auto split: sum.splits)
      obtain r2 u2 db3 w3 where
        j: "set_startpage_inner bg included db2 w1 = (r2, u2, db3, w3)"
        by (cases "set_startpage_inner bg included db2 w1") auto
      from n j have "r2 = Inr True \<and> db3 = db' \<and> w3 = w'"
        by (cases r2) (auto split: if_splits sum.splits bool.splits)
      with i Inr False e r j show ?thesis by simp
    qed
  qed
qed


lemma distinct_keys_filter: "distinct (map fst kvs) \<Longrightarrow> distinct (map fst (filter P kvs))"
  by (rule distinct_map_filter)

text \<open>
  A selection that succeeds, for a record whose base directory is a path and whose
  wallpapers are a dict (with distinct keys, as any dict). It has linked the file of a
  key of the pool and recorded that path in \<^verbatim>\<open>startpage\<close>. Either that key was an unused
  key of the pool, and its flag is the only thing that has changed in the dict; or the
  pool had no unused key, and the dict is the one with every flag reset in which the
  flag of that key has been set.
\<close>

lemma set_startpage_body_success:
  assumes "set_startpage_body exclusions bg db w = (Inr v, db', w')"
      and "get_attr db ''base_directory'' = Inr (PPath base)"
      and "get_attr db ''wallpapers'' = Inr (PDict walls)"
      and "distinct (map fst walls)"
  shows "\<exists>k su ms mu walls0 m.
       k \<in> set (pool exclusions w base walls)
     \<and> trace w' = trace w
           @ replicate m (Warned ''Database contains non-existent file and should be refreshed'')
           @ [Installed bg (absolute w (path_join base k))]
     \<and> get_attr db' ''startpage'' = Inr (PTarget (now w) (PPath (path_join base k)))
     \<and> map_of walls0 k = Some (PWallpaper su ms mu)
     \<and> get_attr db' ''wallpapers''
           = Inr (PDict (dict_set walls0 k (PWallpaper (PBool True) ms mu)))
     \<and> ((walls0 = walls \<and> k \<in> set (unused_pool exclusions w base walls))
         \<or> (unused_pool exclusions w base walls = []
             \<and> walls0 = map (\<lambda>kv. (fst kv, reset_value (snd kv))) walls))
     \<and> get_attr db' ''base_directory'' = Inr (PPath base)
     \<and> root w' = root w \<and> cwd w' = cwd w \<and> clock w' = clock w"
proof -
  let ?W = "Warned ''Database contains non-existent file and should be refreshed''"
  let ?inc = "filter (\<lambda>kv. \<not> excluded exclusions (fst kv)) walls"
  let ?I = "map fst ?inc"
  let ?U = "map fst (filter (\<lambda>kv. is_unused (snd kv)) ?inc)"
  from assms(1,3) obtain us where us: "unused_keys ?inc = Inr us"
    and rd: "set_startpage_rounds 2 bg ?I us db w = (Inr v, db', w')"
    by (auto simp: set_startpage_body_def Let_def split: if_splits sum.splits)
  from unused_keys_result [OF us] have u: "us = ?U" .
  have dI: "distinct ?I" using assms(4) by (rule distinct_keys_filter)
  have dU: "distinct ?U" using dI by (rule distinct_keys_filter)
  have inI: "\<And>k. k \<in> set ?I \<Longrightarrow> is_file w (path_join base k)
               \<Longrightarrow> k \<in> set (pool exclusions w base walls)"
    by (auto simp: pool_def)
  have inU: "\<And>k. k \<in> set ?U \<Longrightarrow> is_file w (path_join base k)
               \<Longrightarrow> k \<in> set (unused_pool exclusions w base walls)"
    by (auto simp: unused_pool_def)
  have UI: "set ?U \<subseteq> set ?I" by auto
  from set_startpage_rounds_success [OF rd assms(2)] show ?thesis
  proof (elim disjE exE conjE)
    fix u1
    assume "set_startpage_inner bg us db w = (Inr True, u1, db', w')"
    then have l: "set_startpage_loop (length ?U) bg ?U db w = (Inr True, u1, db', w')"
      by (simp add: set_startpage_inner_def u)
    from set_startpage_loop_True [OF l assms(2) dU assms(3)] obtain k su ms mu where
      k: "k \<in> set u1" "is_file w (path_join base k)"
      and t: "trace w' = trace w @ replicate (length ?U - length u1) ?W
                @ [Installed bg (absolute w (path_join base k))]"
      and v: "map_of walls k = Some (PWallpaper su ms mu)"
        "get_attr db' ''wallpapers'' = Inr (PDict (dict_set walls k (PWallpaper (PBool True) ms mu)))"
        "get_attr db' ''startpage'' = Inr (PTarget (now w) (PPath (path_join base k)))"
      by blast
    from set_startpage_loop_unused [OF l assms(2) dU] k(1) have kU: "k \<in> set ?U" by blast
    from kU UI have kI: "k \<in> set ?I" by blast
    note p = inI [OF kI k(2)]
    note q = inU [OF kU k(2)]
    from set_startpage_loop_record [OF l assms(2) dU] assms(2)
    have b: "get_attr db' ''base_directory'' = Inr (PPath base)" by simp
    from set_startpage_loop_world [OF l assms(2)]
    have f: "root w' = root w" "cwd w' = cwd w" "clock w' = clock w" by simp_all
    from p t v q b f show ?thesis by blast
  next
    fix db1 w1 db2 u2
    assume a: "set_startpage_inner bg us db w = (Inr False, [], db1, w1)"
      and r: "reset_used db1 = Inr db2"
      and c: "set_startpage_inner bg ?I db2 w1 = (Inr True, u2, db', w')"
    from a have l1: "set_startpage_loop (length ?U) bg ?U db w = (Inr False, [], db1, w1)"
      by (simp add: set_startpage_inner_def u)
    from set_startpage_loop_unused [OF l1 assms(2) dU]
    have nf: "\<forall>k \<in> set ?U. \<not> is_file w (path_join base k)" by simp
    have e: "unused_pool exclusions w base walls = []"
      using nf by (fastforce simp: unused_pool_def filter_empty_conv)
    from set_startpage_loop_False [OF l1 assms(2)] assms(3)
    have w1: "get_attr db1 ''wallpapers'' = Inr (PDict walls)" by simp
    from set_startpage_loop_record [OF l1 assms(2) dU] assms(2)
    have b1: "get_attr db1 ''base_directory'' = Inr (PPath base)" by simp
    from set_startpage_loop_world [OF l1 assms(2)]
    have f1: "root w1 = root w" "cwd w1 = cwd w" "clock w1 = clock w" by simp_all
    from set_startpage_loop_trace [OF l1 assms(2) dU]
    have t1: "trace w1 = trace w @ replicate (length ?U) ?W" by auto
    from reset_used_result [OF r w1] obtain walls' where
      ra: "reset_all walls = Inr walls'"
      and d2: "db2 = set_attr db1 ''wallpapers'' (PDict walls')"
      by blast
    from reset_all_result [OF ra]
    have w0: "walls' = map (\<lambda>kv. (fst kv, reset_value (snd kv))) walls" by simp
    have b2: "get_attr db2 ''base_directory'' = Inr (PPath base)"
      unfolding d2 using b1 by (simp add: get_attr_set_attr)
    have w2: "get_attr db2 ''wallpapers'' = Inr (PDict walls')"
      unfolding d2 by (simp add: get_attr_set_attr)
    from c have l2: "set_startpage_loop (length ?I) bg ?I db2 w1 = (Inr True, u2, db', w')"
      by (simp add: set_startpage_inner_def)
    from set_startpage_loop_True [OF l2 b2 dI w2] obtain k su ms mu where
      k: "k \<in> set u2" "is_file w1 (path_join base k)"
      and t: "trace w' = trace w1 @ replicate (length ?I - length u2) ?W
                @ [Installed bg (absolute w1 (path_join base k))]"
      and v: "map_of walls' k = Some (PWallpaper su ms mu)"
        "get_attr db' ''wallpapers'' = Inr (PDict (dict_set walls' k (PWallpaper (PBool True) ms mu)))"
        "get_attr db' ''startpage'' = Inr (PTarget (now w1) (PPath (path_join base k)))"
      by blast
    from set_startpage_loop_unused [OF l2 b2 dI] k(1) have kI: "k \<in> set ?I" by blast
    have fk: "is_file w (path_join base k)"
      using k(2) is_file_cong [OF f1(1,2)] by simp
    note p = inI [OF kI fk]
    have ab: "absolute w1 (path_join base k) = absolute w (path_join base k)"
      using f1(2) by (rule absolute_cong)
    have nw: "now w1 = now w" using f1(3) by (rule now_cong)
    have t': "trace w' = trace w @ replicate (length ?U + (length ?I - length u2)) ?W
                @ [Installed bg (absolute w (path_join base k))]"
      unfolding t t1 ab by (simp add: replicate_add)
    from v(3) have v3: "get_attr db' ''startpage'' = Inr (PTarget (now w) (PPath (path_join base k)))"
      unfolding nw .
    from set_startpage_loop_record [OF l2 b2 dI] b2
    have b: "get_attr db' ''base_directory'' = Inr (PPath base)" by simp
    from set_startpage_loop_world [OF l2 b2] f1
    have f: "root w' = root w" "cwd w' = cwd w" "clock w' = clock w" by simp_all
    from p t' v3 v(1,2) e w0 b f show ?thesis by blast
  qed
qed

end
